theory Spec2Isabelle
  imports Complex_Main
begin

section \<open>Python values, errors and the parameter dictionary\<close>

text \<open>
  The plotter of \<^verbatim>\<open>wizardhat/plot/plot.py\<close> is embedded over the real numbers: a numpy
  float is a \<^typ>\<open>real\<close>, so rounding, infinities and NaN are outside the embedding.
  Where numpy would produce a NaN (the mean of zero rows, a division by a zero scale) the
  model returns the error \<open>NonFinite\<close> and says nothing more about that frame. The one
  exception is line 153, where a float is converted to an integer: there every operation
  is rounded to double precision, because the rounding decides the integer (the value
  reaches 10.0 once the hyperbolic tangent has rounded to 1.0).

  \<open>plot_params\<close> is an arbitrary Python object. \<open>PRgb name n i\<close> stands for entry \<open>i\<close> of
  seaborn's \<^verbatim>\<open>color_palette(name, n)\<close>, a 3-tuple of floats whose values the repository
  does not fix.
\<close>

datatype pyval =
    PNone
  | PNum real
  | PStr string
  | PRgb string nat nat
  | PList "pyval list"
  | PTuple "pyval list"
  | PDict "(pyval \<times> pyval) list"

datatype error =
    TypeError string
  | ValueError string
  | IndexError
  | StopIteration
  | NonFinite
  | Unsupported string

type_synonym dict = "(pyval \<times> pyval) list"

fun bind :: "error + 'a \<Rightarrow> ('a \<Rightarrow> error + 'b) \<Rightarrow> error + 'b" where
  "bind (Inl e) f = Inl e"
| "bind (Inr x) f = f x"

fun setitem :: "dict \<Rightarrow> pyval \<Rightarrow> pyval \<Rightarrow> dict" where
  "setitem [] k v = [(k, v)]"
| "setitem ((k', v') # d) k v = (if k' = k then (k, v) # d else (k', v') # setitem d k v)"

text \<open>Lists and dicts are unhashable, a tuple is hashable when its items are.\<close>

fun hashable :: "pyval \<Rightarrow> bool" where
  "hashable (PList vs) = False"
| "hashable (PDict kvs) = False"
| "hashable (PTuple vs) = list_all hashable vs"
| "hashable v = True"

text \<open>
  One element of the sequence given to \<^verbatim>\<open>dict.update\<close>: it is converted to a sequence
  (TypeError when it is not iterable), which must have exactly two items (ValueError
  otherwise); the first is the key and must be hashable.
\<close>

fun as_pair :: "pyval \<Rightarrow> error + (pyval \<times> pyval)" where
  "as_pair PNone = Inl (TypeError ''cannot convert dictionary update sequence element to a sequence'')"
| "as_pair (PNum x) = Inl (TypeError ''cannot convert dictionary update sequence element to a sequence'')"
| "as_pair (PRgb name n i) = Inl (ValueError ''dictionary update sequence element has length 3; 2 is required'')"
| "as_pair (PStr [a, b]) = Inr (PStr [a], PStr [b])"
| "as_pair (PStr s) = Inl (ValueError ''dictionary update sequence element has wrong length; 2 is required'')"
| "as_pair (PList [k, v]) = (if hashable k then Inr (k, v) else Inl (TypeError ''unhashable type''))"
| "as_pair (PList vs) = Inl (ValueError ''dictionary update sequence element has wrong length; 2 is required'')"
| "as_pair (PTuple [k, v]) = (if hashable k then Inr (k, v) else Inl (TypeError ''unhashable type''))"
| "as_pair (PTuple vs) = Inl (ValueError ''dictionary update sequence element has wrong length; 2 is required'')"
| "as_pair (PDict [(k1, v1), (k2, v2)]) = Inr (k1, k2)"
| "as_pair (PDict kvs) = Inl (ValueError ''dictionary update sequence element has wrong length; 2 is required'')"

fun merge_from_seq2 :: "dict \<Rightarrow> pyval list \<Rightarrow> error + dict" where
  "merge_from_seq2 d [] = Inr d"
| "merge_from_seq2 d (item # rest) =
     (case as_pair item of
        Inl e \<Rightarrow> Inl e
      | Inr (k, v) \<Rightarrow> merge_from_seq2 (setitem d k v) rest)"

text \<open>
  \<^verbatim>\<open>d.update(other)\<close>: a mapping is merged key by key; anything else is iterated as a
  sequence of key-value pairs. None and numbers are not iterable; the items of an RGB
  tuple are floats, which are not sequences.
\<close>

fun dict_update :: "dict \<Rightarrow> pyval \<Rightarrow> error + dict" where
  "dict_update d (PDict kvs) = Inr (fold (\<lambda>kv acc. setitem acc (fst kv) (snd kv)) kvs d)"
| "dict_update d (PList items) = merge_from_seq2 d items"
| "dict_update d (PTuple items) = merge_from_seq2 d items"
| "dict_update d (PStr s) = merge_from_seq2 d (map (\<lambda>c. PStr [c]) s)"
| "dict_update d (PRgb name n i) = Inl (TypeError ''cannot convert dictionary update sequence element to a sequence'')"
| "dict_update d PNone = Inl (TypeError ''NoneType object is not iterable'')"
| "dict_update d (PNum x) = Inl (TypeError ''object is not iterable'')"

definition getitem :: "dict \<Rightarrow> string \<Rightarrow> pyval" where
  "getitem d k = (case map_of d (PStr k) of Some v \<Rightarrow> v | None \<Rightarrow> PNone)"

definition color_palette :: "string \<Rightarrow> nat \<Rightarrow> pyval list" where
  "color_palette name n = map (PRgb name n) [0..<n]"

section \<open>Data sources, text visuals, the GL program and the plotter\<close>

text \<open>
  A data source (\<^verbatim>\<open>data.Data\<close>, not part of this file) is read through four attributes.
  \<open>unstructured\<close> is its sample matrix as a list of rows, oldest first; each row is the
  index column followed by one value per channel.
\<close>

record source =
  ch_names :: "string list"
  n_chan :: nat
  n_samples :: nat
  unstructured :: "real list list"

text \<open>The \<open>data\<close> argument: one object with a \<open>ch_names\<close> attribute, or a list of them.\<close>

datatype data_arg = Single source | Multiple "source list"

datatype label_text = Literal string | Fixed2 real

text \<open>
  The attributes of a vispy \<^verbatim>\<open>TextVisual\<close> this file reads or writes. \<open>Fixed2 x\<close> is the
  string \<^verbatim>\<open>'%.2f' % x\<close>; \<open>text_val\<close> is the attribute \<^verbatim>\<open>text\<close>. A new TextVisual has
  font size 12.
\<close>

record text_visual =
  text_val :: label_text
  bold :: bool
  color :: pyval
  font_size :: int

definition TextVisual :: "label_text \<Rightarrow> bool \<Rightarrow> pyval \<Rightarrow> text_visual" where
  "TextVisual t b c = \<lparr>text_val = t, bold = b, color = c, font_size = 12\<rparr>"

record program =
  a_position :: "real list"
  a_color :: "pyval list"
  a_index :: "(real \<times> real \<times> real) list"
  u_scale :: "real \<times> real"
  u_size :: "nat \<times> nat"
  u_n :: nat

text \<open>
  The plotter object. \<open>data\<close> is \<^verbatim>\<open>self.data\<close>, the list of sources, and \<open>cur_data\<close> is
  \<^verbatim>\<open>self._data\<close>, kept as the position in \<open>data\<close> of the object it refers to.
  \<^verbatim>\<open>self._cycle\<close> is \<^verbatim>\<open>itertools.cycle(range(n))\<close>: \<open>cycle_len\<close> is \<open>n\<close> and
  \<open>cycle_next\<close> the number it yields next. The other private attributes keep their names
  without the underscore.
\<close>

record lines =
  data :: "source list"
  cycle_len :: nat
  cycle_next :: nat
  cur_data :: nat
  n_lines :: nat
  n_points :: nat
  params :: dict
  prog :: program
  names :: "text_visual list"
  quality :: "text_visual list"

subsection \<open>numpy helpers used at construction\<close>

definition arange :: "nat \<Rightarrow> real list" where
  "arange n = map real [0..<n]"

definition np_repeat :: "'a list \<Rightarrow> nat \<Rightarrow> 'a list" where
  "np_repeat xs n = concat (map (replicate n) xs)"

definition np_tile :: "'a list \<Rightarrow> nat \<Rightarrow> 'a list" where
  "np_tile xs n = concat (replicate n xs)"

definition np_c3 :: "'a list \<Rightarrow> 'a list \<Rightarrow> 'a list \<Rightarrow> ('a \<times> 'a \<times> 'a) list" where
  "np_c3 xs ys zs = zip xs (zip ys zs)"

subsection \<open>Construction\<close>

definition default_params :: "nat \<Rightarrow> dict" where
  "default_params nl =
     [(PStr ''title'', PStr ''Plotter''),
      (PStr ''font_size'', PNum 48),
      (PStr ''scale'', PNum 500),
      (PStr ''palette'', PList (color_palette ''RdBu_r'' nl)),
      (PStr ''quality_palette'', PList (rev (color_palette ''RdYlGn'' 11)))]"

text \<open>
  \<^verbatim>\<open>np.repeat(self.params['palette'], self._n_points, axis=0).astype(np.float32)\<close>, which
  stands outside the \<^verbatim>\<open>try\<close>. numpy first makes an array of the palette: None, numbers,
  strings and dicts are its scalars, lists and tuples its dimensions, and a sequence whose
  items differ in shape is refused with a ValueError.
\<close>

fun seq_shape :: "nat list option list \<Rightarrow> nat list option" where
  "seq_shape [] = Some [0]"
| "seq_shape (None # ss) = None"
| "seq_shape (Some sh # ss) =
     (if list_all (\<lambda>t. t = Some sh) ss then Some (Suc (length ss) # sh) else None)"

fun np_shape :: "pyval \<Rightarrow> nat list option" where
  "np_shape (PList vs) = seq_shape (map np_shape vs)"
| "np_shape (PTuple vs) = seq_shape (map np_shape vs)"
| "np_shape (PRgb name n i) = Some [3]"
| "np_shape v = Some []"

fun first_error :: "error option list \<Rightarrow> error option" where
  "first_error [] = None"
| "first_error (Some e # es) = Some e"
| "first_error (None # es) = first_error es"

text \<open>
  \<^verbatim>\<open>astype(np.float32)\<close> converts the scalars in order and stops at the first that has no
  float value: None and dicts raise the TypeError of \<^verbatim>\<open>float()\<close>. A string converts
  when it spells a number; palettes with strings are not embedded.
\<close>

fun astype_float32 :: "pyval \<Rightarrow> error option" where
  "astype_float32 (PList vs) = first_error (map astype_float32 vs)"
| "astype_float32 (PTuple vs) = first_error (map astype_float32 vs)"
| "astype_float32 PNone =
     Some (TypeError ''float() argument must be a string or a real number, not NoneType'')"
| "astype_float32 (PDict kvs) =
     Some (TypeError ''float() argument must be a string or a real number, not dict'')"
| "astype_float32 (PStr s) = Some (Unsupported ''palette of strings'')"
| "astype_float32 v = None"

text \<open>
  The rows of the result: every item of a list or tuple \<open>n\<close> times, a single number \<open>n\<close>
  times. One RGB tuple as the whole palette gives its three components \<open>n\<close> times each,
  which the embedding cannot name.
\<close>

fun repeat_rows :: "pyval \<Rightarrow> nat \<Rightarrow> error + pyval list" where
  "repeat_rows (PList cs) n = Inr (np_repeat cs n)"
| "repeat_rows (PTuple cs) n = Inr (np_repeat cs n)"
| "repeat_rows (PNum x) n = Inr (replicate n (PNum x))"
| "repeat_rows v n = Inl (Unsupported ''palette'')"

definition repeat_palette :: "pyval \<Rightarrow> nat \<Rightarrow> error + pyval list" where
  "repeat_palette v n =
     (case np_shape v of
        None \<Rightarrow> Inl (ValueError ''setting an array element with a sequence'')
      | Some sh \<Rightarrow>
          (case astype_float32 v of
             Some e \<Rightarrow> Inl e
           | None \<Rightarrow> repeat_rows v n))"

definition set_program_params :: "nat \<Rightarrow> nat \<Rightarrow> pyval list \<Rightarrow> program" where
  "set_program_params nl np col =
     (let index = np_c3 (np_repeat (np_repeat (arange 1) nl) np)
                        (np_repeat (np_tile (arange nl) 1) np)
                        (np_tile (arange np) nl);
          position = replicate (nl * np) 0
      in \<lparr>a_position = position, a_color = col, a_index = index,
          u_scale = (1, 1), u_size = (nl, 1), u_n = np\<rparr>)"

definition data_list :: "data_arg \<Rightarrow> source list" where
  "data_list d = (case d of Single s \<Rightarrow> [s] | Multiple ss \<Rightarrow> ss)"

text \<open>
  \<^verbatim>\<open>Lines.__init__\<close>. The first \<^verbatim>\<open>next(self._cycle)\<close> raises StopIteration on an empty
  list of sources and yields 0 otherwise. \<open>plot_params\<close> None is replaced by the empty
  dict; a TypeError of \<^verbatim>\<open>dict.update\<close> is caught and raised again with the message of
  the source, any other exception passes through.
\<close>

definition Lines_init :: "data_arg \<Rightarrow> pyval \<Rightarrow> error + lines" where
  "Lines_init d plot_params =
     (let ds = data_list d in
      if ds = [] then Inl StopIteration
      else
        let cur = 0;
            nxt = 1 mod length ds;
            nl = n_chan (ds ! cur);
            np = n_samples (ds ! cur);
            pp = (if plot_params = PNone then PDict [] else plot_params)
        in bind (case dict_update (default_params nl) pp of
                   Inl (TypeError m) \<Rightarrow> Inl (TypeError ''plot_params not a dict or key-value pairs list'')
                 | Inl e \<Rightarrow> Inl e
                 | Inr ps \<Rightarrow> Inr ps)
             (\<lambda>ps. bind (repeat_palette (getitem ps ''palette'') np)
               (\<lambda>col. Inr \<lparr>data = ds, cycle_len = length ds, cycle_next = nxt, cur_data = cur,
                           n_lines = nl, n_points = np, params = ps,
                           prog = set_program_params nl np col,
                           names = map (\<lambda>ch_name. TextVisual (Literal ch_name) True (PStr ''white''))
                                     (ch_names (ds ! cur)),
                           quality = map (\<lambda>ch_name. TextVisual (Literal []) True (PStr ''white''))
                                     (ch_names (ds ! cur))\<rparr>)))"

section \<open>Input handlers\<close>

text \<open>
  \<^verbatim>\<open>on_key_press\<close>, with \<open>key\<close> the name of the key. \<^verbatim>\<open>next(self._cycle)\<close> on a cycle
  over an empty range raises StopIteration, as does \<^verbatim>\<open>self.data[i]\<close> out of range
  raise IndexError.
\<close>

definition on_key_press :: "string \<Rightarrow> lines \<Rightarrow> error + lines" where
  "on_key_press key st =
     bind (if key = ''D'' then
             (if cycle_len st = 0 then Inl StopIteration
              else if cycle_next st < length (data st)
              then Inr (st\<lparr>cur_data := cycle_next st,
                           cycle_next := (cycle_next st + 1) mod cycle_len st\<rparr>)
              else Inl IndexError)
           else Inr st)
       (\<lambda>st. if key \<in> set [''+'', ''-''] then
               (let dx = (if key = ''+'' then - 0.05 else 0.05);
                    scale_x = fst (u_scale (prog st));
                    scale_y = snd (u_scale (prog st));
                    scale_x_new = scale_x * exp (1.0 * dx);
                    scale_y_new = scale_y * exp (0.0 * dx)
                in Inr (st\<lparr>prog := (prog st)\<lparr>u_scale := (max 1 scale_x_new, max 1 scale_y_new)\<rparr>\<rparr>))
             else Inr st)"

text \<open>\<^verbatim>\<open>on_mouse_wheel\<close>, with \<open>delta\<close> the pair \<^verbatim>\<open>event.delta\<close>.\<close>

definition on_mouse_wheel :: "real \<times> real \<Rightarrow> lines \<Rightarrow> lines" where
  "on_mouse_wheel delta st =
     (let dx = sgn (snd delta) * 0.05;
          scale_x = fst (u_scale (prog st));
          scale_y = snd (u_scale (prog st));
          scale_x_new = scale_x * exp (0.0 * dx);
          scale_y_new = scale_y * exp (2.0 * dx)
      in st\<lparr>prog := (prog st)\<lparr>u_scale := (max 1 scale_x_new, max 0.01 scale_y_new)\<rparr>\<rparr>)"

section \<open>The frame update\<close>

subsection \<open>numpy helpers used per frame\<close>

definition mean :: "real list \<Rightarrow> real" where
  "mean xs = sum_list xs / real (length xs)"

text \<open>\<^verbatim>\<open>np.std\<close> with its default \<^verbatim>\<open>ddof=0\<close>.\<close>

definition np_std :: "real list \<Rightarrow> real" where
  "np_std xs = sqrt (mean (map (\<lambda>x. (x - mean xs) ^ 2) xs))"

text \<open>\<^verbatim>\<open>xs[-n:]\<close> for a positive \<open>n\<close>: the last \<open>n\<close> items, or all of them.\<close>

definition lastn :: "nat \<Rightarrow> 'a list \<Rightarrow> 'a list" where
  "lastn n xs = drop (length xs - n) xs"

text \<open>
  \<^verbatim>\<open>np.int32(x)\<close> of a float truncates toward zero. The values converted here lie
  between 0 and 10, far from the 32-bit range.
\<close>

definition int32 :: "real \<Rightarrow> int" where
  "int32 x = (if 0 \<le> x then \<lfloor>x\<rfloor> else \<lceil>x\<rceil>)"

text \<open>
  Double precision, for line 153. \<open>rne\<close> rounds to the nearest integer, a tie to the even
  one. \<open>flp x\<close> is the double nearest to a positive \<open>x\<close>: with \<open>2 ^ e \<le> x < 2 ^ (e + 1)\<close>
  the doubles around \<open>x\<close> are the multiples of \<open>2 ^ (e - 52)\<close>. The exponent is not bounded:
  overflow and subnormal numbers are outside the embedding. \<open>np_tanh\<close> is numpy's
  \<^verbatim>\<open>tanh\<close>, taken to return the double nearest to the true value.
\<close>

definition rne :: "real \<Rightarrow> int" where
  "rne r = (let f = \<lfloor>r\<rfloor>; d = r - of_int f
            in if d < 1/2 then f else if 1/2 < d then f + 1 else if even f then f else f + 1)"

definition flp :: "real \<Rightarrow> real" where
  "flp x = (let u = 2 powr (of_int \<lfloor>log 2 x\<rfloor> - 52) in of_int (rne (x / u)) * u)"

definition fl64 :: "real \<Rightarrow> real" where
  "fl64 x = (if x = 0 then 0 else if 0 < x then flp x else - flp (- x))"

definition np_tanh :: "real \<Rightarrow> real" where
  "np_tanh x = fl64 (tanh x)"

text \<open>\<^verbatim>\<open>np.tanh((sd - 30) / 15)*5 + 5\<close> for one entry of \<open>sd\<close>, each operation rounded.\<close>

definition category_value :: "real \<Rightarrow> real" where
  "category_value sd = fl64 (fl64 (np_tanh (fl64 (fl64 (sd - 30) / 15)) * 5) + 5)"

definition quality_category :: "real \<Rightarrow> int" where
  "quality_category sd = int32 (category_value sd)"

text \<open>Python's \<^verbatim>\<open>xs[i]\<close> on a list: a negative index counts from the end.\<close>

definition list_getitem :: "'a list \<Rightarrow> int \<Rightarrow> error + 'a" where
  "list_getitem xs i =
     (if 0 \<le> i \<and> i < int (length xs) then Inr (xs ! nat i)
      else if i < 0 \<and> - int (length xs) \<le> i then Inr (xs ! nat (int (length xs) + i))
      else Inl IndexError)"

text \<open>
  \<^verbatim>\<open>self.params['quality_palette'][i]\<close>. None and numbers cannot be subscripted; a
  palette that is a string, a dict or one RGB tuple is not embedded.
\<close>

fun py_getitem :: "pyval \<Rightarrow> int \<Rightarrow> error + pyval" where
  "py_getitem (PList vs) i = list_getitem vs i"
| "py_getitem (PTuple vs) i = list_getitem vs i"
| "py_getitem PNone i = Inl (TypeError ''NoneType object is not subscriptable'')"
| "py_getitem (PNum x) i = Inl (TypeError ''object is not subscriptable'')"
| "py_getitem v i = Inl (Unsupported ''quality_palette'')"

text \<open>
  \<^verbatim>\<open>self.params['scale']\<close> as the divisor of an array: a zero divisor gives infinities
  and NaN, a value that is not a number is not embedded.
\<close>

fun scale_of :: "pyval \<Rightarrow> error + real" where
  "scale_of (PNum s) = (if s = 0 then Inl NonFinite else Inr s)"
| "scale_of v = Inl (Unsupported ''scale'')"

text \<open>A \<^verbatim>\<open>for\<close> loop whose body may raise: the first error ends it.\<close>

fun for_range :: "nat list \<Rightarrow> (nat \<Rightarrow> 's \<Rightarrow> error + 's) \<Rightarrow> 's \<Rightarrow> error + 's" where
  "for_range [] body s = Inr s"
| "for_range (l # ls) body s = bind (body l s) (for_range ls body)"

subsection \<open>\<^verbatim>\<open>update_plot\<close>\<close>

text \<open>
  The body of the loop over \<open>l\<close> (lines 156 to 161). Every subscript out of range raises
  IndexError; the state of an interrupted frame is not kept.
\<close>

definition label_step :: "real list \<Rightarrow> int list \<Rightarrow> nat \<Rightarrow> lines \<Rightarrow> error + lines" where
  "label_step sd co l st =
     (if l < length sd \<and> l < length (quality st) then
        bind (py_getitem (getitem (params st) ''quality_palette'') (co ! l))
          (\<lambda>c. let q = (quality st ! l)\<lparr>text_val := Fixed2 (sd ! l), color := c,
                                         font_size := 12 + co ! l\<rparr>;
                    st1 = st\<lparr>quality := (quality st)[l := q]\<rparr>
                in if l < length (names st1) then
                     Inr (st1\<lparr>names := (names st1)[l := (names st1 ! l)\<lparr>font_size := 12 + co ! l,
                                                                           color := c\<rparr>]\<rparr>)
                   else Inl IndexError)
      else Inl IndexError)"

text \<open>
  Rows are kept as lists, so a column is a row of the transpose, \<^verbatim>\<open>axis=0\<close> statistics
  map over the transpose, and \<^verbatim>\<open>plot_data.T.ravel()\<close> is the concatenation of the
  transpose.

  Lines 148 and 149: drop the index column, subtract the column means, divide by the
  scale.
\<close>

definition center_scale :: "real \<Rightarrow> real list list \<Rightarrow> real list list" where
  "center_scale scale m =
     (let plot_data = map tl m;
          mu = map mean (transpose plot_data)
      in map (\<lambda>row. map (\<lambda>xm. (fst xm - snd xm) / scale) (zip row mu)) plot_data)"

text \<open>Lines 150 and 152: the deviation of the last 256 rows, per column, in reverse order.\<close>

definition window_sd :: "real \<Rightarrow> real list list \<Rightarrow> real list" where
  "window_sd scale plot_data =
     (let sd = rev (map np_std (transpose (lastn 256 plot_data)))
      in map (\<lambda>s. s * scale) sd)"

text \<open>
  \<^verbatim>\<open>update_plot\<close> reads the sample matrix of the active source. With no row at all the
  column means are NaN.
\<close>

definition update_plot :: "lines \<Rightarrow> error + lines" where
  "update_plot st =
     (let m = unstructured (data st ! cur_data st) in
      if m = [] then Inl NonFinite
      else
        bind (scale_of (getitem (params st) ''scale''))
          (\<lambda>scale.
             let plot_data = center_scale scale m;
                 sd = window_sd scale plot_data;
                 co = map quality_category sd
             in bind (for_range [0..<n_lines st] (label_step sd co) st)
                  (\<lambda>st'. Inr (st'\<lparr>prog := (prog st')\<lparr>a_position := concat (transpose plot_data)\<rparr>\<rparr>))))"

section \<open>Events\<close>

text \<open>
  What reaches the plotter: a key press, a wheel event, a timer tick (which calls
  \<^verbatim>\<open>update_plot\<close>), and, from outside, new samples: \<open>Acquire i m\<close> says that the sample
  matrix of the source at position \<open>i\<close> is now \<open>m\<close>.
\<close>

datatype event = KeyPress string | MouseWheel "real \<times> real" | Timer | Acquire nat "real list list"

definition acquire :: "nat \<Rightarrow> real list list \<Rightarrow> lines \<Rightarrow> lines" where
  "acquire i m st = st\<lparr>data := (data st)[i := (data st ! i)\<lparr>unstructured := m\<rparr>]\<rparr>"

fun handle :: "event \<Rightarrow> lines \<Rightarrow> error + lines" where
  "handle (KeyPress key) st = on_key_press key st"
| "handle (MouseWheel delta) st = Inr (on_mouse_wheel delta st)"
| "handle Timer st = update_plot st"
| "handle (Acquire i m) st = Inr (acquire i m st)"

fun run :: "event list \<Rightarrow> lines \<Rightarrow> error + lines" where
  "run [] st = Inr st"
| "run (e # es) st = bind (handle e st) (run es)"

definition session :: "data_arg \<Rightarrow> pyval \<Rightarrow> event list \<Rightarrow> error + lines" where
  "session d plot_params es = bind (Lines_init d plot_params) (run es)"

definition time_scale :: "lines \<Rightarrow> real" where
  "time_scale st = fst (u_scale (prog st))"

definition amplitude_scale :: "lines \<Rightarrow> real" where
  "amplitude_scale st = snd (u_scale (prog st))"

subsection \<open>Predicates and inputs used in the statements below\<close>

text \<open>The events that change the view scale: the keys \<open>+\<close> and \<open>-\<close>, and the wheel.\<close>

fun is_scale_event :: "event \<Rightarrow> bool" where
  "is_scale_event (KeyPress key) = (key = ''+'' \<or> key = ''-'')"
| "is_scale_event (MouseWheel delta) = True"
| "is_scale_event e = False"





text \<open>The category as the specification words it: rounded to the nearest integer, then clamped.\<close>

definition quality_category_spec :: "real \<Rightarrow> int" where
  "quality_category_spec sd = max 0 (min 10 (round (tanh ((sd - 30) / 15) * 5 + 5)))"

text \<open>
  A sample matrix is rectangular. \<open>channel_column j m\<close> is the column of channel \<open>j\<close>, the
  index column skipped; \<open>channel_amplitudes\<close> is that column centred on its mean and divided
  by the scale, and \<open>channel_sd\<close> the deviation of its last 256 values, scaled back.
\<close>

definition rectangular :: "nat \<Rightarrow> real list list \<Rightarrow> bool" where
  "rectangular c m = list_all (\<lambda>row. length row = c) m"

definition channel_column :: "nat \<Rightarrow> real list list \<Rightarrow> real list" where
  "channel_column j m = map (\<lambda>row. row ! Suc j) m"

definition channel_amplitudes :: "real \<Rightarrow> real list list \<Rightarrow> nat \<Rightarrow> real list" where
  "channel_amplitudes scale m j =
     map (\<lambda>x. (x - mean (channel_column j m)) / scale) (channel_column j m)"

definition channel_sd :: "real \<Rightarrow> real list list \<Rightarrow> nat \<Rightarrow> real" where
  "channel_sd scale m j = np_std (lastn 256 (channel_amplitudes scale m j)) * scale"

text \<open>A source with two channels and two samples, and the plotter built on it.\<close>

definition demo_source :: source where
  "demo_source = \<lparr>ch_names = [''Fp1'', ''Fp2''], n_chan = 2, n_samples = 2,
                   unstructured = [[0, 0, 10], [1, 60, 10]]\<rparr>"

definition demo_lines :: lines where
  "demo_lines = projr (Lines_init (Single demo_source) PNone)"

definition demo_frame :: lines where
  "demo_frame = projr (update_plot demo_lines)"

text \<open>A later sample matrix of that source, one row longer.\<close>

definition grown_matrix :: "real list list" where
  "grown_matrix = [[0, 0, 10], [1, 60, 10], [2, 30, 10]]"

text \<open>
  A matrix of the shape the plotter was built for: \<open>np\<close> rows, each an index and \<open>nl\<close>
  channel values. A \<open>shaped_event\<close> brings no matrix of another shape.
\<close>

definition well_shaped :: "nat \<Rightarrow> nat \<Rightarrow> real list list \<Rightarrow> bool" where
  "well_shaped nl np m = (length m = np \<and> rectangular (Suc nl) m)"

fun shaped_event :: "nat \<Rightarrow> nat \<Rightarrow> event \<Rightarrow> bool" where
  "shaped_event nl np (Acquire i m) = well_shaped nl np m"
| "shaped_event nl np e = True"

definition buffer_length :: "lines \<Rightarrow> nat" where
  "buffer_length st = length (a_position (prog st))"

text \<open>The invariants carried through a run of events.\<close>

definition shape_inv :: "nat \<Rightarrow> nat \<Rightarrow> lines \<Rightarrow> bool" where
  "shape_inv nl np st =
     (n_lines st = nl \<and> n_points st = np \<and> buffer_length st = nl * np
      \<and> list_all (\<lambda>s. well_shaped nl np (unstructured s)) (data st)
      \<and> cur_data st < length (data st))"

definition single_source :: "lines \<Rightarrow> bool" where
  "single_source st =
     (length (data st) = 1 \<and> cycle_len st = 1 \<and> cycle_next st = 0 \<and> cur_data st = 0)"

section \<open>Properties\<close>

subsection \<open>Basic facts\<close>

lemma bind_eq_Inr: "bind m f = Inr y \<longleftrightarrow> (\<exists>x. m = Inr x \<and> f x = Inr y)"
  by (cases m) auto

lemma run_append: "run (xs @ ys) st = bind (run xs st) (run ys)"
proof (induction xs arbitrary: st)
  case Nil then show ?case by simp
next
  case (Cons x xs) then show ?case by (cases "handle x st") simp_all
qed

lemma np_shape_rgbs: "np_shape (PList (map (PRgb name k) js)) \<noteq> None"
  by (cases js) (simp_all add: list_all_iff)

lemma astype_float32_rgbs: "astype_float32 (PList (map (PRgb name k) js)) = None"
  by (induction js) simp_all

lemma repeat_palette_rgbs:
  "repeat_palette (PList (map (PRgb name k) js)) n = Inr (np_repeat (map (PRgb name k) js) n)"
  using np_shape_rgbs[of name k js] astype_float32_rgbs[of name k js]
  by (auto simp: repeat_palette_def)

lemma repeat_palette_default:
  "repeat_palette (PList (color_palette name k)) n = Inr (np_repeat (color_palette name k) n)"
  unfolding color_palette_def by (rule repeat_palette_rgbs)

lemma Lines_init_u_scale: "Lines_init d p = Inr st \<Longrightarrow> u_scale (prog st) = (1, 1)"
  by (auto simp: Lines_init_def Let_def bind_eq_Inr set_program_params_def split: if_splits)

lemma Lines_init_None: "data_list d \<noteq> [] \<Longrightarrow> \<exists>st. Lines_init d PNone = Inr st"
  by (simp add: Lines_init_def Let_def default_params_def getitem_def repeat_palette_default)

lemma demo_init: "Lines_init (Single demo_source) PNone = Inr demo_lines"
  using Lines_init_None[of "Single demo_source"] by (auto simp: demo_lines_def data_list_def)

lemma label_step_prog: "label_step sd co l st = Inr st' \<Longrightarrow> prog st' = prog st"
  by (auto simp: label_step_def Let_def bind_eq_Inr split: if_splits)

lemma for_range_prog:
  "for_range ls (label_step sd co) st = Inr st' \<Longrightarrow> prog st' = prog st"
proof (induction ls arbitrary: st)
  case Nil then show ?case by simp
next
  case (Cons l ls)
  then obtain st1 where a: "label_step sd co l st = Inr st1"
    and b: "for_range ls (label_step sd co) st1 = Inr st'"
    by (auto simp: bind_eq_Inr)
  then show ?case using Cons.IH[OF b] label_step_prog[OF a] by simp
qed

lemma update_plot_u_scale: "update_plot st = Inr st' \<Longrightarrow> u_scale (prog st') = u_scale (prog st)"
  by (auto simp: update_plot_def Let_def bind_eq_Inr split: if_splits dest: for_range_prog)

subsection \<open>The view scale\<close>

lemma key_plus:
  "on_key_press ''+'' st =
     Inr (st\<lparr>prog := (prog st)\<lparr>u_scale := (max 1 (time_scale st * exp (- (1/20))),
                                          max 1 (amplitude_scale st))\<rparr>\<rparr>)"
  by (simp add: on_key_press_def Let_def time_scale_def amplitude_scale_def)

lemma key_minus:
  "on_key_press ''-'' st =
     Inr (st\<lparr>prog := (prog st)\<lparr>u_scale := (max 1 (time_scale st * exp (1/20)),
                                          max 1 (amplitude_scale st))\<rparr>\<rparr>)"
  by (simp add: on_key_press_def Let_def time_scale_def amplitude_scale_def)

lemma wheel_down:
  "on_mouse_wheel (0, - 1) st =
     st\<lparr>prog := (prog st)\<lparr>u_scale := (max 1 (time_scale st),
                                     max (1/100) (amplitude_scale st * exp (- (1/10))))\<rparr>\<rparr>"
  by (simp add: on_mouse_wheel_def Let_def time_scale_def amplitude_scale_def)

lemma on_key_press_floor:
  "on_key_press key st = Inr st' \<Longrightarrow> 1 \<le> time_scale st \<Longrightarrow> 1/100 \<le> amplitude_scale st
     \<Longrightarrow> 1 \<le> time_scale st' \<and> 1/100 \<le> amplitude_scale st'"
  by (auto simp: on_key_press_def Let_def bind_eq_Inr time_scale_def amplitude_scale_def
           split: if_splits)

lemma on_mouse_wheel_floor:
  "1 \<le> time_scale (on_mouse_wheel delta st) \<and> 1/100 \<le> amplitude_scale (on_mouse_wheel delta st)"
  by (simp add: on_mouse_wheel_def Let_def time_scale_def amplitude_scale_def)

lemma handle_floor:
  assumes h: "handle e st = Inr st'" and t: "1 \<le> time_scale st" and a: "1/100 \<le> amplitude_scale st"
  shows "1 \<le> time_scale st' \<and> 1/100 \<le> amplitude_scale st'"
proof (cases e)
  case (KeyPress k)
  with h have "on_key_press k st = Inr st'" by simp
  then show ?thesis using t a by (rule on_key_press_floor)
next
  case (MouseWheel d)
  with h have "st' = on_mouse_wheel d st" by simp
  then show ?thesis using on_mouse_wheel_floor[of d st] by simp
next
  case Timer
  with h have "update_plot st = Inr st'" by simp
  then have "u_scale (prog st') = u_scale (prog st)" by (rule update_plot_u_scale)
  then show ?thesis using t a by (simp add: time_scale_def amplitude_scale_def)
next
  case (Acquire i m)
  with h have "st' = acquire i m st" by simp
  then show ?thesis using t a by (simp add: time_scale_def amplitude_scale_def acquire_def)
qed

lemma run_floor:
  "run es st = Inr st' \<Longrightarrow> 1 \<le> time_scale st \<Longrightarrow> 1/100 \<le> amplitude_scale st
     \<Longrightarrow> 1 \<le> time_scale st' \<and> 1/100 \<le> amplitude_scale st'"
proof (induction es arbitrary: st)
  case Nil then show ?case by simp
next
  case (Cons e es)
  from Cons.prems(1) obtain st1 where s1: "handle e st = Inr st1" and s2: "run es st1 = Inr st'"
    by (auto simp: bind_eq_Inr)
  from handle_floor[OF s1 Cons.prems(2) Cons.prems(3)] Cons.IH[OF s2] show ?case by simp
qed

lemma handle_scale_event_total: "is_scale_event e \<Longrightarrow> \<exists>st'. handle e st = Inr st'"
  by (cases e) (auto simp: on_key_press_def Let_def)

lemma run_scale_events_total: "list_all is_scale_event es \<Longrightarrow> \<exists>st'. run es st = Inr st'"
proof (induction es arbitrary: st)
  case Nil then show ?case by simp
next
  case (Cons e es)
  then obtain st1 where "handle e st = Inr st1" using handle_scale_event_total[of e st] by auto
  then show ?case using Cons by simp
qed

lemma run_plus_floor:
  "time_scale st = 1 \<Longrightarrow> \<exists>st'. run (replicate k (KeyPress ''+'')) st = Inr st' \<and> time_scale st' = 1"
proof (induction k arbitrary: st)
  case 0 then show ?case by simp
next
  case (Suc k)
  let ?s = "st\<lparr>prog := (prog st)\<lparr>u_scale := (max 1 (time_scale st * exp (- (1/20))),
                                               max 1 (amplitude_scale st))\<rparr>\<rparr>"
  have "time_scale ?s = 1" using Suc.prems by (simp add: time_scale_def max_def)
  from Suc.IH[OF this] show ?case by (simp add: key_plus)
qed

lemma run_minus_grow:
  "1 \<le> time_scale st \<Longrightarrow>
   \<exists>st'. run (replicate k (KeyPress ''-'')) st = Inr st'
         \<and> time_scale st' = time_scale st * exp (real k / 20)"
proof (induction k arbitrary: st)
  case 0 then show ?case by simp
next
  case (Suc k)
  let ?s = "st\<lparr>prog := (prog st)\<lparr>u_scale := (max 1 (time_scale st * exp (1/20)),
                                               max 1 (amplitude_scale st))\<rparr>\<rparr>"
  have ge: "1 \<le> time_scale st * exp (1/20)"
  proof -
    have "1 * 1 \<le> time_scale st * exp (1/20)"
      using Suc.prems by (intro mult_mono) simp_all
    then show ?thesis by simp
  qed
  then have ts: "time_scale ?s = time_scale st * exp (1/20)" by (simp add: time_scale_def max_def)
  with ge have "1 \<le> time_scale ?s" by simp
  from Suc.IH[OF this] obtain st' where r: "run (replicate k (KeyPress ''-'')) ?s = Inr st'"
    and v: "time_scale st' = time_scale ?s * exp (real k / 20)" by blast
  have "exp (1/20) * exp (real k / 20) = exp (real (Suc k) / 20)"
    by (simp add: exp_add[symmetric] add_divide_distrib)
  then have "time_scale st' = time_scale st * exp (real (Suc k) / 20)"
    using v ts by (simp add: mult.assoc)
  with r show ?case by (simp add: key_minus)
qed

lemma run_plus_shrink:
  "time_scale st = exp (real m / 20) \<Longrightarrow> j \<le> m \<Longrightarrow>
   \<exists>st'. run (replicate j (KeyPress ''+'')) st = Inr st'
         \<and> time_scale st' = exp (real (m - j) / 20)"
proof (induction j arbitrary: st m)
  case 0 then show ?case by simp
next
  case (Suc j)
  let ?s = "st\<lparr>prog := (prog st)\<lparr>u_scale := (max 1 (time_scale st * exp (- (1/20))),
                                               max 1 (amplitude_scale st))\<rparr>\<rparr>"
  from Suc.prems obtain m' where m: "m = Suc m'" by (cases m) auto
  have "exp (real m / 20) * exp (- (1/20)) = exp (real m' / 20)"
    unfolding m by (simp add: exp_add[symmetric] add_divide_distrib)
  moreover have "1 \<le> exp (real m' / 20)" by simp
  ultimately have "time_scale ?s = exp (real m' / 20)"
    using Suc.prems(1) by (simp add: time_scale_def max_def)
  moreover have "j \<le> m'" using Suc.prems(2) m by simp
  ultimately obtain st' where "run (replicate j (KeyPress ''+'')) ?s = Inr st'"
      "time_scale st' = exp (real (m' - j) / 20)" using Suc.IH by blast
  then show ?case using m by (simp add: key_plus)
qed

lemma exp_twentieth: "1 + 1/20 < exp (1/20 :: real)"
  using exp_lower_Taylor_quadratic[of "1/20 :: real"] by (simp add: power2_eq_square)

lemma exp_tenth_bounds: "1/100 < exp (- (1/10) :: real)" "exp (- (1/10) :: real) < 1"
  using exp_ge_add_one_self[of "- (1/10) :: real"] by simp_all

text \<open>
  C1, as stated: from a fresh plotter, \<open>k\<close> presses of \<open>+\<close> followed by \<open>k\<close> presses of \<open>-\<close>
  bring the time scale back to its first value. It fails already for \<open>k = 1\<close>: the first
  value is 1, \<open>+\<close> at the floor leaves 1, and \<open>-\<close> then gives \<open>exp (1/20)\<close>, more than
  \<open>1/20\<close> away from 1.
\<close>

theorem round_trip_counterexample:
  "map_sum id time_scale (session (Single demo_source) PNone [KeyPress ''+'', KeyPress ''-''])
     = Inr (exp (1/20))
   \<and> map_sum id time_scale (session (Single demo_source) PNone []) = Inr 1
   \<and> 1/20 < \<bar>exp (1/20) - (1::real)\<bar>"
proof -
  have t0: "time_scale demo_lines = 1"
    using Lines_init_u_scale[OF demo_init] by (simp add: time_scale_def)
  have "session (Single demo_source) PNone [KeyPress ''+'', KeyPress ''-''] =
        run [KeyPress ''+'', KeyPress ''-''] demo_lines"
    by (simp add: session_def demo_init)
  then have a: "map_sum id time_scale
                  (session (Single demo_source) PNone [KeyPress ''+'', KeyPress ''-''])
                = Inr (exp (1/20))"
    using t0 by (simp add: key_plus key_minus time_scale_def max_def)
  have b: "map_sum id time_scale (session (Single demo_source) PNone []) = Inr 1"
    using t0 by (simp add: session_def demo_init)
  have c: "1/20 < \<bar>exp (1/20) - (1::real)\<bar>" using exp_twentieth by simp
  show ?thesis using a b c by simp
qed

text \<open>
  C1, amended: from a fresh plotter, \<open>k\<close> presses of \<open>+\<close> followed by \<open>k\<close> presses of \<open>-\<close>
  leave the time scale at \<open>exp (k/20)\<close>, because \<open>+\<close> has no effect at the floor 1; in the
  other order, \<open>k\<close> presses of \<open>-\<close> followed by \<open>k\<close> presses of \<open>+\<close> bring the time scale
  back to its first value (exactly, over the reals).
\<close>

theorem plus_minus_round_trip:
  assumes "Lines_init d plot_params = Inr st0"
  shows "(\<exists>st. run (replicate k (KeyPress ''+'') @ replicate k (KeyPress ''-'')) st0 = Inr st
              \<and> time_scale st = exp (real k / 20))
       \<and> (\<exists>st. run (replicate k (KeyPress ''-'') @ replicate k (KeyPress ''+'')) st0 = Inr st
              \<and> time_scale st = time_scale st0)"
proof -
  have t0: "time_scale st0 = 1"
    using Lines_init_u_scale[OF assms] by (simp add: time_scale_def)
  obtain s1 where p1: "run (replicate k (KeyPress ''+'')) st0 = Inr s1" and p2: "time_scale s1 = 1"
    using run_plus_floor[OF t0] by blast
  obtain s2 where p3: "run (replicate k (KeyPress ''-'')) s1 = Inr s2"
    and p4: "time_scale s2 = time_scale s1 * exp (real k / 20)"
    using run_minus_grow[of s1 k] p2 by auto
  have A: "run (replicate k (KeyPress ''+'') @ replicate k (KeyPress ''-'')) st0 = Inr s2"
    by (simp add: run_append p1 p3)
  obtain s3 where q1: "run (replicate k (KeyPress ''-'')) st0 = Inr s3"
    and q2: "time_scale s3 = time_scale st0 * exp (real k / 20)"
    using run_minus_grow[of st0 k] t0 by auto
  have "time_scale s3 = exp (real k / 20)" using q2 t0 by simp
  from run_plus_shrink[OF this order_refl]
  obtain s4 where q3: "run (replicate k (KeyPress ''+'')) s3 = Inr s4" and q4: "time_scale s4 = 1"
    by auto
  have B: "run (replicate k (KeyPress ''-'') @ replicate k (KeyPress ''+'')) st0 = Inr s4"
    by (simp add: run_append q1 q3)
  show ?thesis using A B p4 p2 q4 t0 by simp
qed

theorem plus_minus_round_trip_witness:
  "Lines_init (Single demo_source) PNone = Inr demo_lines
   \<and> (\<exists>st. run (replicate 3 (KeyPress ''+'') @ replicate 3 (KeyPress ''-'')) demo_lines = Inr st
              \<and> time_scale st = exp (real 3 / 20))
   \<and> (\<exists>st. run (replicate 3 (KeyPress ''-'') @ replicate 3 (KeyPress ''+'')) demo_lines = Inr st
              \<and> time_scale st = time_scale demo_lines)"
  using plus_minus_round_trip[OF demo_init, of 3] demo_init by simp

text \<open>
  C5, evaluated where it fails: one wheel step down brings the amplitude scale of a fresh
  plotter to \<open>exp (- 1/10)\<close>, below 1, and a press of \<open>+\<close> then sets it to 1, since
  \<^verbatim>\<open>on_key_press\<close> floors both components of the scale at 1.
\<close>

theorem key_press_resets_amplitude:
  "map_sum id amplitude_scale (session (Single demo_source) PNone [MouseWheel (0, - 1)])
     = Inr (exp (- (1/10)))
   \<and> map_sum id amplitude_scale
       (session (Single demo_source) PNone [MouseWheel (0, - 1), KeyPress ''+'']) = Inr 1
   \<and> exp (- (1/10)) < (1::real)"
proof -
  have u0: "u_scale (prog demo_lines) = (1, 1)" by (rule Lines_init_u_scale[OF demo_init])
  have a: "map_sum id amplitude_scale (session (Single demo_source) PNone [MouseWheel (0, - 1)])
             = Inr (exp (- (1/10)))"
    using u0 exp_tenth_bounds
    by (simp add: session_def demo_init wheel_down time_scale_def amplitude_scale_def max_def)
  have b: "map_sum id amplitude_scale
             (session (Single demo_source) PNone [MouseWheel (0, - 1), KeyPress ''+'']) = Inr 1"
    using u0 exp_tenth_bounds
    by (simp add: session_def demo_init wheel_down key_plus time_scale_def amplitude_scale_def
                  max_def)
  show ?thesis using a b exp_tenth_bounds by simp
qed

text \<open>
  C6: after any sequence of \<open>+\<close>, \<open>-\<close> and wheel events on a fresh plotter, every one of
  which is handled without error, the time scale is at least 1 and the amplitude scale at
  least 0.01.
\<close>

theorem scale_floors:
  assumes "Lines_init d plot_params = Inr st0" and "list_all is_scale_event es"
  shows "\<exists>st. run es st0 = Inr st \<and> 1 \<le> time_scale st \<and> 0.01 \<le> amplitude_scale st"
proof -
  from assms(2) obtain st where r: "run es st0 = Inr st" using run_scale_events_total by blast
  have "u_scale (prog st0) = (1, 1)" using assms(1) by (rule Lines_init_u_scale)
  then have "1 \<le> time_scale st0" "1/100 \<le> amplitude_scale st0"
    by (simp_all add: time_scale_def amplitude_scale_def)
  from run_floor[OF r this] r show ?thesis by simp
qed

theorem scale_floors_witness:
  "Lines_init (Single demo_source) PNone = Inr demo_lines
   \<and> list_all is_scale_event [KeyPress ''+'', MouseWheel (0, - 1), KeyPress ''-'']
   \<and> (\<exists>st. run [KeyPress ''+'', MouseWheel (0, - 1), KeyPress ''-''] demo_lines = Inr st
         \<and> 1 \<le> time_scale st \<and> 0.01 \<le> amplitude_scale st)"
  using scale_floors[OF demo_init, of "[KeyPress ''+'', MouseWheel (0, - 1), KeyPress ''-'']"]
    demo_init
  by simp

subsection \<open>Rounding to double precision\<close>

lemma rne_ge: "of_int n \<le> r \<Longrightarrow> n \<le> rne r"
proof -
  assume "of_int n \<le> r"
  then have "n \<le> \<lfloor>r\<rfloor>" by (simp add: le_floor_iff)
  then show ?thesis by (auto simp: rne_def Let_def)
qed

lemma rne_le: "r \<le> of_int n \<Longrightarrow> rne r \<le> n"
proof (cases "r = of_int n")
  case True then show ?thesis by (simp add: rne_def Let_def)
next
  case False
  assume "r \<le> of_int n"
  with False have "r < of_int n" by simp
  then have "\<lfloor>r\<rfloor> < n" by (simp add: floor_less_iff)
  then show ?thesis by (auto simp: rne_def Let_def)
qed

lemma flp_scaled:
  assumes "0 < x"
  obtains u j where "0 < u" "u = 2 powr real_of_int j" "flp x = of_int (rne (x / u)) * u"
    "2 ^ 52 \<le> x / u" "x / u < 2 ^ 53"
proof -
  define e where "e = \<lfloor>log 2 x\<rfloor>"
  define u where "u = 2 powr (of_int e - 52 :: real)"
  have b: "2 powr real_of_int e \<le> x" "x < 2 powr real_of_int (e + 1)"
    using floor_log_eq_powr_iff[of x 2 e] assms by (simp_all add: e_def)
  have u: "u = 2 powr real_of_int e / 2 ^ 52" by (simp add: u_def powr_diff)
  have p: "0 < 2 powr real_of_int e" by simp
  have u0: "0 < u" by (simp add: u_def)
  have q: "x / u = x * 2 ^ 52 / 2 powr real_of_int e" by (simp add: u)
  have "2 powr real_of_int (e + 1) = 2 * 2 powr real_of_int e" by (simp add: powr_add)
  then have b2: "x < 2 * 2 powr real_of_int e" using b(2) by simp
  have lo: "2 ^ 52 \<le> x / u" unfolding q using b(1) p by (simp add: le_divide_eq)
  have hi: "x / u < 2 ^ 53" unfolding q using b2 p by (simp add: divide_less_eq)
  have uj: "u = 2 powr real_of_int (e - 52)" by (simp add: u_def)
  have "flp x = of_int (rne (x / u)) * u" by (simp add: flp_def Let_def u_def e_def)
  with u0 uj lo hi show ?thesis using that by blast
qed

lemma dyadic_over_ulp:
  fixes m :: int and n :: nat and j :: int
  assumes "0 < m" "m < 2 ^ 53" "u = 2 powr real_of_int j" "a = real_of_int m / 2 ^ n"
  shows "(\<exists>N. a / u = real_of_int N) \<or> a / u < 2 ^ 52"
proof -
  define i where "i = - int n - j"
  have "(2::real) ^ n = 2 powr real_of_int (int n)" by (simp add: powr_realpow)
  then have a: "a / u = real_of_int m * 2 powr real_of_int i"
    by (simp add: assms(3,4) i_def powr_diff powr_minus field_simps powr_add[symmetric])
  show ?thesis
  proof (cases "0 \<le> i")
    case True
    then have "2 powr real_of_int i = real_of_int (2 ^ nat i)" by (simp add: powr_real_of_int)
    then have "a / u = real_of_int (m * 2 ^ nat i)" unfolding a by simp
    then show ?thesis by blast
  next
    case False
    then have "i \<le> - 1" by simp
    then have "2 powr real_of_int i \<le> 2 powr (- 1 :: real)"
      by (intro powr_mono) simp_all
    then have "2 powr real_of_int i \<le> (1/2 :: real)" by (simp add: powr_minus_divide)
    moreover have "0 < real_of_int m" using assms(1) by simp
    ultimately have "real_of_int m * 2 powr real_of_int i \<le> real_of_int m * (1/2)"
      by (intro mult_left_mono) simp_all
    moreover have "real_of_int m < 2 ^ 53" using assms(2) by (metis of_int_less_numeral_power_cancel_iff)
    ultimately show ?thesis unfolding a by simp
  qed
qed

lemma flp_lower:
  fixes m :: int and n :: nat
  assumes "0 < m" "m < 2 ^ 53" "a = real_of_int m / 2 ^ n" "a \<le> x"
  shows "a \<le> flp x"
proof -
  have "0 < a" using assms(1,3) by simp
  then have x: "0 < x" using assms(4) by simp
  from flp_scaled[OF x] obtain u j where u: "0 < u" "u = 2 powr real_of_int j"
    "flp x = of_int (rne (x / u)) * u" "2 ^ 52 \<le> x / u" "x / u < 2 ^ 53" by blast
  have le: "a / u \<le> x / u" using assms(4) u(1) by (rule divide_right_mono[OF _ less_imp_le])
  have "\<exists>N. a / u \<le> real_of_int N \<and> real_of_int N \<le> x / u"
  proof -
    from dyadic_over_ulp[OF assms(1,2) u(2) assms(3)] show ?thesis
    proof
      assume "\<exists>N. a / u = real_of_int N"
      then show ?thesis using le by auto
    next
      assume "a / u < 2 ^ 52"
      then have "a / u \<le> real_of_int (2 ^ 52) \<and> real_of_int (2 ^ 52) \<le> x / u" using u(4) by simp
      then show ?thesis by blast
    qed
  qed
  then obtain N where N: "a / u \<le> real_of_int N" "real_of_int N \<le> x / u" by blast
  have "N \<le> rne (x / u)" using N(2) by (rule rne_ge)
  then have "real_of_int N * u \<le> real_of_int (rne (x / u)) * u"
    using u(1) by (simp add: mult_right_mono)
  moreover have "a \<le> real_of_int N * u" using N(1) u(1) by (simp add: pos_divide_le_eq)
  ultimately show ?thesis using u(3) by simp
qed

lemma flp_upper:
  fixes m :: int and n :: nat
  assumes "0 < m" "m < 2 ^ 53" "b = real_of_int m / 2 ^ n" "0 < x" "x \<le> b"
  shows "flp x \<le> b"
proof -
  from flp_scaled[OF assms(4)] obtain u j where u: "0 < u" "u = 2 powr real_of_int j"
    "flp x = of_int (rne (x / u)) * u" "2 ^ 52 \<le> x / u" "x / u < 2 ^ 53" by blast
  have le: "x / u \<le> b / u" using assms(5) u(1) by (rule divide_right_mono[OF _ less_imp_le])
  from dyadic_over_ulp[OF assms(1,2) u(2) assms(3)] have "\<exists>N. b / u = real_of_int N"
    using le u(4) by auto
  then obtain N where N: "b / u = real_of_int N" by blast
  have "rne (x / u) \<le> N" using le N by (intro rne_le) simp
  then have "real_of_int (rne (x / u)) * u \<le> real_of_int N * u"
    using u(1) by (simp add: mult_right_mono)
  moreover have "real_of_int N * u = b" using N u(1) by (simp add: field_simps)
  ultimately show ?thesis using u(3) by simp
qed

lemma flp_nonneg: "0 < x \<Longrightarrow> 0 \<le> flp x"
proof -
  assume x: "0 < x"
  from flp_scaled[OF x] obtain u and j :: int where u: "0 < u"
    "flp x = of_int (rne (x / u)) * u" "2 ^ 52 \<le> x / u" by blast
  have "(0::real) \<le> 2 ^ 52" by simp
  then have "real_of_int 0 \<le> x / u" using u(3) by simp
  then have "0 \<le> rne (x / u)" by (rule rne_ge)
  then show ?thesis using u(1,2) by simp
qed

lemma fl64_nonneg: "0 \<le> x \<Longrightarrow> 0 \<le> fl64 x"
  by (simp add: fl64_def flp_nonneg)

lemma fl64_lower:
  fixes m :: int and n :: nat
  assumes "0 < m" "m < 2 ^ 53" "a = real_of_int m / 2 ^ n" "a \<le> x"
  shows "a \<le> fl64 x"
proof -
  have "0 < a" using assms(1,3) by simp
  then have "0 < x" using assms(4) by simp
  then show ?thesis using flp_lower[OF assms] by (simp add: fl64_def)
qed

lemma fl64_upper:
  fixes m :: int and n :: nat
  assumes "0 < m" "m < 2 ^ 53" "b = real_of_int m / 2 ^ n" "x \<le> b"
  shows "fl64 x \<le> b"
proof -
  have b: "0 < b" using assms(1,3) by simp
  consider "x = 0" | "0 < x" | "x < 0" by linarith
  then show ?thesis
  proof cases
    case 1 then show ?thesis using b by (simp add: fl64_def)
  next
    case 2 then show ?thesis using flp_upper[OF assms(1,2,3) 2 assms(4)] by (simp add: fl64_def)
  next
    case 3
    then have "0 \<le> flp (- x)" by (intro flp_nonneg) simp
    then show ?thesis using 3 b by (simp add: fl64_def)
  qed
qed

lemma fl64_minus: "fl64 (- x) = - fl64 x"
  by (simp add: fl64_def)

lemma fl64_abs_le:
  fixes m :: int and n :: nat
  assumes "0 < m" "m < 2 ^ 53" "b = real_of_int m / 2 ^ n" "\<bar>x\<bar> \<le> b"
  shows "\<bar>fl64 x\<bar> \<le> b"
proof -
  have "fl64 x \<le> b" using assms by (intro fl64_upper[OF assms(1,2,3)]) simp
  moreover have "fl64 (- x) \<le> b" using assms by (intro fl64_upper[OF assms(1,2,3)]) simp
  ultimately show ?thesis by (simp add: fl64_minus abs_le_iff)
qed

lemma fl64_exact:
  fixes m :: int and n :: nat
  assumes "0 < m" "m < 2 ^ 53" "a = real_of_int m / 2 ^ n"
  shows "fl64 a = a"
  using fl64_lower[OF assms order_refl] fl64_upper[OF assms order_refl] by simp

lemma fl64_0: "fl64 0 = 0" by (simp add: fl64_def)

lemma fl64_2: "fl64 2 = 2" by (rule fl64_exact[of 2 _ 0]) simp_all
lemma fl64_5: "fl64 5 = 5" by (rule fl64_exact[of 5 _ 0]) simp_all
lemma fl64_10: "fl64 10 = 10" by (rule fl64_exact[of 10 _ 0]) simp_all
lemma fl64_290: "fl64 290 = 290" by (rule fl64_exact[of 290 _ 0]) simp_all

subsection \<open>The quality category\<close>

lemma np_tanh_range: "\<bar>np_tanh x\<bar> \<le> 1"
  unfolding np_tanh_def
proof (rule fl64_abs_le[of 1 _ 0])
  show "\<bar>tanh x\<bar> \<le> 1" using tanh_real_gt_neg1[of x] tanh_real_lt_1[of x] by (simp add: abs_le_iff)
qed simp_all

lemma category_value_range: "0 \<le> category_value sd \<and> category_value sd \<le> 10"
proof -
  define t where "t = np_tanh (fl64 (fl64 (sd - 30) / 15))"
  have t: "\<bar>t\<bar> \<le> 1" by (simp add: t_def np_tanh_range)
  have "\<bar>fl64 (t * 5)\<bar> \<le> 5"
  proof (rule fl64_abs_le[of 5 _ 0])
    show "\<bar>t * 5\<bar> \<le> 5" using t by (simp add: abs_mult)
  qed simp_all
  then have w: "0 \<le> fl64 (t * 5) + 5" "fl64 (t * 5) + 5 \<le> 10" by (simp_all add: abs_le_iff)
  have "0 \<le> fl64 (fl64 (t * 5) + 5)" using w(1) by (rule fl64_nonneg)
  moreover have "fl64 (fl64 (t * 5) + 5) \<le> 10" using w(2) by (intro fl64_upper[of 10 _ 0]) simp_all
  ultimately show ?thesis by (simp add: category_value_def t_def)
qed

lemma flp_near_one:
  assumes "1 - 1 / 2 ^ 54 \<le> T" and "T < 1"
  shows "flp T = 1"
proof -
  have T: "0 < T" "1/2 \<le> T" using assms(1) by simp_all
  have e: "\<lfloor>log 2 T\<rfloor> = - 1"
    using floor_log_eq_powr_iff[of T 2 "- 1"] T assms(2) by (simp add: powr_minus_divide)
  have u: "2 powr (real_of_int \<lfloor>log 2 T\<rfloor> - 52) = 1 / 2 ^ 53"
    unfolding e by (simp add: powr_minus_divide)
  define q where "q = T * 2 ^ 53"
  have q: "2 ^ 53 - 1/2 \<le> q" "q < 2 ^ 53" using assms by (simp_all add: q_def field_simps)
  have f: "\<lfloor>q\<rfloor> = 2 ^ 53 - 1" using q by (intro floor_unique) simp_all
  have r: "rne q = 2 ^ 53" using q unfolding rne_def Let_def f by auto
  have "flp T = real_of_int (rne (T / (1 / 2 ^ 53))) * (1 / 2 ^ 53)"
    by (simp only: flp_def Let_def u)
  moreover have "T / (1 / 2 ^ 53) = q" by (simp add: q_def)
  ultimately have "flp T = real_of_int (2 ^ 53) * (1 / 2 ^ 53)" by (simp only: r)
  then show ?thesis by simp
qed

lemma exp_quarter: "41 / 32 \<le> exp (1/4 :: real)"
  using exp_lower_Taylor_quadratic[of "1/4 :: real"] by (simp add: power2_eq_square)

lemma exp_77_2: "2 ^ 55 \<le> exp (77 / 2 :: real)"
proof -
  have "exp (77 / 2 :: real) = exp (real 154 * (1/4))" by simp
  also have "\<dots> = exp (1/4) ^ 154" by (rule exp_of_nat_mult)
  finally have e: "exp (77 / 2 :: real) = exp (1/4) ^ 154" .
  have a: "(41 / 32 :: real) ^ 154 \<le> exp (1/4) ^ 154"
    using exp_quarter by (intro power_mono) simp_all
  have b: "(2::real) ^ 55 \<le> (41 / 32) ^ 154" by (simp add: power_divide)
  show ?thesis unfolding e using b a by (rule order_trans)
qed

lemma tanh_near_one:
  assumes "77 / 4 \<le> (x::real)"
  shows "1 - 1 / 2 ^ 54 \<le> tanh x"
proof -
  define y where "y = exp (- 2 * (77 / 4 :: real))"
  have "y = 1 / exp (77 / 2)" by (simp add: y_def exp_minus field_simps)
  moreover have "0 < exp (77 / 2 :: real)" by simp
  ultimately have y: "y \<le> 1 / 2 ^ 55" "0 < y"
    using exp_77_2 by (simp_all add: frac_le)
  have "tanh (77 / 4 :: real) = (1 - y) / (1 + y)" unfolding y_def by (rule tanh_real_altdef)
  moreover have "1 - 2 * y \<le> (1 - y) / (1 + y)"
  proof -
    have "(1 - 2 * y) * (1 + y) \<le> 1 - y" using y(2) by (simp add: algebra_simps)
    then show ?thesis using y(2) by (simp add: pos_le_divide_eq)
  qed
  ultimately have "1 - 2 * y \<le> tanh (77 / 4 :: real)" by simp
  moreover have "tanh (77 / 4) \<le> tanh x" using assms by simp
  moreover have "2 * y \<le> 1 / 2 ^ 54" using y(1) by simp
  ultimately show ?thesis by linarith
qed

lemma category_value_320: "category_value 320 = 10"
proof -
  define x where "x = fl64 (290 / 15)"
  have "77 / 4 \<le> x" unfolding x_def by (rule fl64_lower[of 77 _ 2]) simp_all
  then have "1 - 1 / 2 ^ 54 \<le> tanh x" by (rule tanh_near_one)
  moreover have "tanh x < 1" by (rule tanh_real_lt_1)
  ultimately have "flp (tanh x) = 1" by (rule flp_near_one)
  moreover have "0 < tanh x" using \<open>77 / 4 \<le> x\<close> by simp
  ultimately have "np_tanh x = 1" by (simp add: np_tanh_def fl64_def)
  then show ?thesis by (simp add: category_value_def fl64_290 x_def fl64_5 fl64_10)
qed

lemma category_value_30: "category_value 30 = 5"
  by (simp add: category_value_def np_tanh_def fl64_0 fl64_5)

lemma tanh_5_32: "tanh (5 / 32 :: real) \<le> 3 / 16"
proof -
  define y where "y = exp (- 2 * (5 / 32 :: real))"
  have t: "tanh (5 / 32 :: real) = (1 - y) / (1 + y)" unfolding y_def by (rule tanh_real_altdef)
  have lo: "11 / 16 \<le> y" using exp_ge_add_one_self[of "- (5/16) :: real"] by (simp add: y_def)
  then have p: "0 < 1 + y" by simp
  show ?thesis unfolding t using lo p by (simp add: field_simps)
qed

lemma category_value_32: "5 \<le> category_value 32 \<and> category_value 32 \<le> 95 / 16"
proof -
  define x where "x = fl64 (2 / 15)"
  have x1: "1 / 8 \<le> x" unfolding x_def by (rule fl64_lower[of 1 _ 3]) simp_all
  have x2: "x \<le> 5 / 32" unfolding x_def by (rule fl64_upper[of 5 _ 5]) simp_all
  note x = x1 x2
  define t where "t = np_tanh x"
  have "tanh x \<le> tanh (5 / 32)" using x(2) by (simp only: tanh_real_le_iff)
  then have "tanh x \<le> 3 / 16" using tanh_5_32 by (rule order_trans)
  then have t1: "t \<le> 3 / 16" unfolding t_def np_tanh_def by (intro fl64_upper[of 3 _ 4]) simp_all
  have "0 \<le> tanh x" using x(1) by simp
  then have t0: "0 \<le> t" unfolding t_def np_tanh_def by (rule fl64_nonneg)
  define w where "w = fl64 (t * 5)"
  have w0: "0 \<le> w" unfolding w_def using t0 by (intro fl64_nonneg) simp
  have w1: "w \<le> 15 / 16" unfolding w_def using t1 by (intro fl64_upper[of 15 _ 4]) simp_all
  have "5 \<le> fl64 (w + 5)" using w0 by (intro fl64_lower[of 5 _ 0]) simp_all
  moreover have "fl64 (w + 5) \<le> 95 / 16" using w1 by (intro fl64_upper[of 95 _ 4]) simp_all
  ultimately show ?thesis by (simp add: category_value_def fl64_2 x_def t_def w_def)
qed

lemma int32_floor: "0 \<le> y \<Longrightarrow> int32 y = \<lfloor>y\<rfloor>"
  by (simp add: int32_def)

lemma quality_category_floor: "quality_category sd = \<lfloor>category_value sd\<rfloor>"
  unfolding quality_category_def using category_value_range[of sd] by (intro int32_floor) simp

lemma quality_category_range: "0 \<le> quality_category sd \<and> quality_category sd \<le> 10"
proof -
  have "0 \<le> \<lfloor>category_value sd\<rfloor>" using category_value_range[of sd] by simp
  moreover have "\<lfloor>category_value sd\<rfloor> \<le> 10"
    using category_value_range[of sd] by (simp add: floor_le_iff)
  ultimately show ?thesis by (simp add: quality_category_floor)
qed

lemma quality_category_30: "quality_category 30 = 5"
  by (simp add: quality_category_floor category_value_30)

lemma quality_category_32: "quality_category 32 = 5"
proof -
  have "5 \<le> category_value 32" "category_value 32 < 6" using category_value_32 by simp_all
  then have "\<lfloor>category_value 32\<rfloor> = 5" by (intro floor_unique) simp_all
  then show ?thesis by (simp add: quality_category_floor)
qed

lemma quality_category_320: "quality_category 320 = 10"
  by (simp add: quality_category_floor category_value_320)

lemma tanh_2_15_bounds: "2/17 \<le> tanh (2/15::real)" "tanh (2/15::real) \<le> 2/13"
proof -
  define y where "y = exp (- (4/15) :: real)"
  have t: "tanh (2/15::real) = (1 - y) / (1 + y)"
    using tanh_real_altdef[of "2/15"] by (simp add: y_def)
  have lo: "11/15 \<le> y" using exp_ge_add_one_self[of "- (4/15) :: real"] by (simp add: y_def)
  have "19/15 \<le> exp (4/15 :: real)" using exp_ge_add_one_self[of "4/15 :: real"] by simp
  moreover have "y * exp (4/15 :: real) = 1" by (simp add: y_def exp_add[symmetric])
  moreover have "0 < y" by (simp add: y_def)
  ultimately have "y * (19/15) \<le> 1" by (metis less_eq_real_def mult_left_mono)
  then have hi: "y \<le> 15/19" by simp
  have p: "0 < 1 + y" using lo by simp
  show "2/17 \<le> tanh (2/15::real)" unfolding t using hi p by (simp add: field_simps)
  show "tanh (2/15::real) \<le> 2/13" unfolding t using lo p by (simp add: field_simps)
qed

lemma quality_category_spec_32: "quality_category_spec 32 = 6"
proof -
  have "11/2 \<le> tanh (2/15::real) * 5 + 5" "tanh (2/15::real) * 5 + 5 < 13/2" using tanh_2_15_bounds by simp_all
  then have "\<lfloor>tanh (2/15::real) * 5 + 5 + 1/2\<rfloor> = 6" by (intro floor_unique) simp_all
  then have "round (tanh (2/15::real) * 5 + 5) = 6" unfolding round_def by simp
  then show ?thesis by (simp add: quality_category_spec_def)
qed

subsection \<open>Rectangular matrices\<close>

lemma rectangularD: "rectangular c m \<Longrightarrow> row \<in> set m \<Longrightarrow> length row = c"
  by (simp add: rectangular_def list_all_iff)

lemma transpose_rows:
  assumes "rectangular c m" and "m \<noteq> []"
  shows "transpose m = map (\<lambda>j. map (\<lambda>row. row ! j) m) [0..<c]"
proof -
  have "transpose m = map (\<lambda>j. map (\<lambda>i. m ! i ! j) [0..<length m]) [0..<c]"
    using assms by (intro transpose_rectangle) (auto intro: rectangularD)
  moreover have "map (\<lambda>i. m ! i ! j) [0..<length m] = map (\<lambda>row. row ! j) m" for j
    by (simp add: map_equality_iff)
  ultimately show ?thesis by simp
qed

lemma rectangular_tl: "rectangular (Suc c) m \<Longrightarrow> rectangular c (map tl m)"
  by (simp add: rectangular_def list_all_iff)

lemma column_tl:
  assumes "rectangular (Suc c) m" and "j < c"
  shows "map (\<lambda>row. row ! j) (map tl m) = channel_column j m"
  unfolding channel_column_def using assms 
  by (auto simp: nth_tl dest: rectangularD)

lemma center_scale_rows:
  assumes r: "rectangular (Suc c) m" and ne: "m \<noteq> []"
  shows "center_scale scale m =
           map (\<lambda>row. map (\<lambda>j. (row ! Suc j - mean (channel_column j m)) / scale) [0..<c]) m"
proof -
  have t: "transpose (map tl m) = map (\<lambda>j. channel_column j m) [0..<c]"
  proof -
    have "transpose (map tl m) = map (\<lambda>j. map (\<lambda>row. row ! j) (map tl m)) [0..<c]"
      using rectangular_tl[OF r] ne by (intro transpose_rows) simp_all
    also have "\<dots> = map (\<lambda>j. channel_column j m) [0..<c]"
      using column_tl[OF r] by simp
    finally show ?thesis .
  qed
  have "map (\<lambda>xm. (fst xm - snd xm) / scale) (zip (tl row) (map mean (map (\<lambda>j. channel_column j m) [0..<c])))
        = map (\<lambda>j. (row ! Suc j - mean (channel_column j m)) / scale) [0..<c]"
    if "row \<in> set m" for row
  proof -
    have l: "length row = Suc c" using rectangularD[OF r that] .
    show ?thesis by (rule nth_equalityI) (simp_all add: l nth_tl)
  qed
  then show ?thesis unfolding center_scale_def Let_def t by simp
qed

lemma center_scale_rectangular:
  assumes "rectangular (Suc c) m" and "m \<noteq> []"
  shows "rectangular c (center_scale scale m)" "center_scale scale m \<noteq> []"
    "length (center_scale scale m) = length m"
  using assms by (simp_all add: center_scale_rows) (simp add: rectangular_def list_all_iff)

lemma center_scale_column:
  assumes r: "rectangular (Suc c) m" and ne: "m \<noteq> []" and j: "j < c"
  shows "map (\<lambda>row. row ! j) (center_scale scale m) = channel_amplitudes scale m j"
  using j by (simp add: center_scale_rows[OF r ne] channel_amplitudes_def channel_column_def)

lemma center_scale_transpose:
  assumes r: "rectangular (Suc c) m" and ne: "m \<noteq> []"
  shows "transpose (center_scale scale m) = map (channel_amplitudes scale m) [0..<c]"
proof -
  have "transpose (center_scale scale m) = map (\<lambda>j. map (\<lambda>row. row ! j) (center_scale scale m)) [0..<c]"
    using center_scale_rectangular[OF r ne] by (intro transpose_rows)
  then show ?thesis using center_scale_column[OF r ne] by simp
qed

lemma lastn_map: "lastn n (map f xs) = map f (lastn n xs)"
  by (simp add: lastn_def drop_map)

lemma lastn_nonempty: "xs \<noteq> [] \<Longrightarrow> 0 < n \<Longrightarrow> lastn n xs \<noteq> []"
  by (cases xs) (auto simp: lastn_def)

lemma lastn_rectangular: "rectangular c m \<Longrightarrow> rectangular c (lastn n m)"
  by (auto simp: rectangular_def list_all_iff lastn_def dest: in_set_dropD)

lemma window_sd_eq:
  assumes r: "rectangular (Suc c) m" and ne: "m \<noteq> []"
  shows "window_sd scale (center_scale scale m) = rev (map (channel_sd scale m) [0..<c])"
proof -
  let ?p = "center_scale scale m"
  have "transpose (lastn 256 ?p) = map (\<lambda>j. map (\<lambda>row. row ! j) (lastn 256 ?p)) [0..<c]"
    using center_scale_rectangular[OF r ne]
    by (intro transpose_rows lastn_rectangular lastn_nonempty) simp_all
  also have "\<dots> = map (\<lambda>j. lastn 256 (channel_amplitudes scale m j)) [0..<c]"
  proof -
    have "map (\<lambda>row. row ! j) (lastn 256 ?p) = lastn 256 (channel_amplitudes scale m j)" if "j < c" for j
      using center_scale_column[OF r ne that, of scale] by (simp add: lastn_map[symmetric])
    then show ?thesis by simp
  qed
  finally show ?thesis
    by (simp add: window_sd_def Let_def channel_sd_def rev_map o_def)
qed

lemma window_sd_nth:
  assumes r: "rectangular (Suc c) m" and ne: "m \<noteq> []" and l: "l < c"
  shows "window_sd scale (center_scale scale m) ! l = channel_sd scale m (c - 1 - l)"
  using l by (simp add: window_sd_eq[OF r ne] rev_nth)

lemma window_sd_length:
  assumes r: "rectangular (Suc c) m" and ne: "m \<noteq> []"
  shows "length (window_sd scale (center_scale scale m)) = c"
  by (simp add: window_sd_eq[OF r ne])

lemma concat_transpose_length:
  assumes r: "rectangular (Suc c) m" and ne: "m \<noteq> []"
  shows "length (concat (transpose (center_scale scale m))) = c * length m"
  by (simp add: center_scale_transpose[OF r ne] length_concat channel_amplitudes_def channel_column_def o_def sum_list_triv)

subsection \<open>The label loop and the frame\<close>

lemma label_step_Inr:
  assumes "label_step sd co l st = Inr st'"
  shows "l < length sd \<and> l < length (quality st) \<and> l < length (names st)
       \<and> (\<exists>c. py_getitem (getitem (params st) ''quality_palette'') (co ! l) = Inr c
            \<and> st' = st\<lparr>quality := (quality st)[l := (quality st ! l)\<lparr>text_val := Fixed2 (sd ! l),
                                                   color := c, font_size := 12 + co ! l\<rparr>],
                       names := (names st)[l := (names st ! l)\<lparr>font_size := 12 + co ! l, color := c\<rparr>]\<rparr>)"
  using assms by (auto simp: label_step_def Let_def bind_eq_Inr split: if_splits)

lemma map_update_same: "(map f xs)[l := f (xs ! l)] = map f xs"
proof (rule nth_equalityI)
  show "length ((map f xs)[l := f (xs ! l)]) = length (map f xs)" by simp
next
  fix i assume "i < length ((map f xs)[l := f (xs ! l)])"
  then have i: "i < length (map f xs)" by simp
  show "(map f xs)[l := f (xs ! l)] ! i = map f xs ! i"
  proof (cases "i = l")
    case True then show ?thesis using i by (simp only: nth_list_update_eq nth_map length_map)
  next
    case False then show ?thesis by (simp only: nth_list_update_neq not_sym)
  qed
qed

lemma label_step_frame:
  assumes "label_step sd co l st = Inr st'"
  shows "params st' = params st" "data st' = data st" "cycle_len st' = cycle_len st"
    "cycle_next st' = cycle_next st" "cur_data st' = cur_data st" "n_lines st' = n_lines st"
    "n_points st' = n_points st" "prog st' = prog st"
    "length (quality st') = length (quality st)" "length (names st') = length (names st)"
    "map text_val (names st') = map text_val (names st)"
  using label_step_Inr[OF assms] by (auto simp: map_update map_update_same)

lemma label_step_other:
  assumes "label_step sd co l st = Inr st'" and "k \<noteq> l"
  shows "quality st' ! k = quality st ! k" "names st' ! k = names st ! k"
  using label_step_Inr[OF assms(1)] assms(2) by auto

lemma label_step_at:
  assumes "label_step sd co l st = Inr st'"
  shows "text_val (quality st' ! l) = Fixed2 (sd ! l)"
    "font_size (quality st' ! l) = 12 + co ! l"
    "py_getitem (getitem (params st) ''quality_palette'') (co ! l) = Inr (color (quality st' ! l))"
    "font_size (names st' ! l) = 12 + co ! l"
    "color (names st' ! l) = color (quality st' ! l)"
  using label_step_Inr[OF assms] by auto

lemma for_range_frame:
  assumes "for_range ls (label_step sd co) st = Inr st'"
  shows "params st' = params st \<and> data st' = data st \<and> cycle_len st' = cycle_len st
       \<and> cycle_next st' = cycle_next st \<and> cur_data st' = cur_data st \<and> n_lines st' = n_lines st
       \<and> n_points st' = n_points st \<and> prog st' = prog st
       \<and> length (quality st') = length (quality st) \<and> length (names st') = length (names st)
       \<and> map text_val (names st') = map text_val (names st)"
  using assms
proof (induction ls arbitrary: st)
  case Nil then show ?case by simp
next
  case (Cons l ls)
  then obtain st1 where a: "label_step sd co l st = Inr st1"
    and b: "for_range ls (label_step sd co) st1 = Inr st'"
    by (auto simp: bind_eq_Inr)
  show ?case using Cons.IH[OF b] label_step_frame[OF a] by simp
qed

lemma for_range_other:
  assumes "for_range ls (label_step sd co) st = Inr st'" and "k \<notin> set ls"
  shows "quality st' ! k = quality st ! k \<and> names st' ! k = names st ! k"
  using assms
proof (induction ls arbitrary: st)
  case Nil then show ?case by simp
next
  case (Cons l ls)
  then obtain st1 where a: "label_step sd co l st = Inr st1"
    and b: "for_range ls (label_step sd co) st1 = Inr st'"
    by (auto simp: bind_eq_Inr)
  from Cons.prems(2) have k: "k \<noteq> l" "k \<notin> set ls" by auto
  show ?case using Cons.IH[OF b k(2)] label_step_other[OF a k(1)] by simp
qed

lemma for_range_at:
  assumes "for_range ls (label_step sd co) st = Inr st'" and "distinct ls" and "l \<in> set ls"
  shows "l < length sd \<and> l < length (quality st) \<and> l < length (names st)
       \<and> text_val (quality st' ! l) = Fixed2 (sd ! l)
       \<and> font_size (quality st' ! l) = 12 + co ! l
       \<and> py_getitem (getitem (params st) ''quality_palette'') (co ! l) = Inr (color (quality st' ! l))
       \<and> font_size (names st' ! l) = 12 + co ! l
       \<and> color (names st' ! l) = color (quality st' ! l)"
  using assms
proof (induction ls arbitrary: st)
  case Nil then show ?case by simp
next
  case (Cons k ls)
  then obtain st1 where a: "label_step sd co k st = Inr st1"
    and b: "for_range ls (label_step sd co) st1 = Inr st'"
    by (auto simp: bind_eq_Inr)
  note fr = label_step_frame[OF a]
  show ?case
  proof (cases "l = k")
    case True
    then have "l \<notin> set ls" using Cons.prems(2) by simp
    from for_range_other[OF b this] label_step_at[OF a] label_step_Inr[OF a] True
    show ?thesis by simp
  next
    case False
    then have "l \<in> set ls" using Cons.prems(3) by simp
    moreover have "distinct ls" using Cons.prems(2) by simp
    ultimately show ?thesis using Cons.IH[OF b] fr by simp
  qed
qed

lemma update_plot_Inr:
  assumes "update_plot st = Inr st'"
  shows "\<exists>scale st1. unstructured (data st ! cur_data st) \<noteq> []
       \<and> scale_of (getitem (params st) ''scale'') = Inr scale
       \<and> for_range [0..<n_lines st]
            (label_step (window_sd scale (center_scale scale (unstructured (data st ! cur_data st))))
               (map quality_category
                  (window_sd scale (center_scale scale (unstructured (data st ! cur_data st)))))) st
           = Inr st1
       \<and> st' = st1\<lparr>prog := (prog st1)\<lparr>a_position :=
             concat (transpose (center_scale scale (unstructured (data st ! cur_data st))))\<rparr>\<rparr>"
  using assms by (auto simp: update_plot_def Let_def bind_eq_Inr split: if_splits)

lemma scale_of_Inr: "scale_of v = Inr s \<Longrightarrow> v = PNum s \<and> s \<noteq> 0"
  by (cases v) (auto split: if_splits)

lemma Lines_init_Inr:
  assumes "Lines_init d p = Inr st"
  shows "data_list d \<noteq> [] \<and> data st = data_list d \<and> cycle_len st = length (data_list d)
       \<and> cycle_next st = 1 mod length (data_list d) \<and> cur_data st = 0
       \<and> n_lines st = n_chan (hd (data_list d)) \<and> n_points st = n_samples (hd (data_list d))
       \<and> dict_update (default_params (n_chan (hd (data_list d)))) (if p = PNone then PDict [] else p)
           = Inr (params st)
       \<and> a_position (prog st) = replicate (n_lines st * n_points st) 0
       \<and> names st = map (\<lambda>ch_name. TextVisual (Literal ch_name) True (PStr ''white''))
                      (ch_names (hd (data_list d)))
       \<and> quality st = map (\<lambda>ch_name. TextVisual (Literal []) True (PStr ''white''))
                      (ch_names (hd (data_list d)))"
proof -
  from assms have ne: "data_list d \<noteq> []" by (auto simp: Lines_init_def Let_def split: if_splits)
  then have hd: "data_list d ! 0 = hd (data_list d)" by (simp add: hd_conv_nth)
  show ?thesis using assms ne unfolding Lines_init_def Let_def hd
    by (auto simp: bind_eq_Inr set_program_params_def split: sum.splits error.splits)
qed

lemma Lines_init_None_params:
  assumes "Lines_init d PNone = Inr st"
  shows "params st = default_params (n_lines st)"
  using Lines_init_Inr[OF assms] by simp

lemma getitem_default_scale: "getitem (default_params n) ''scale'' = PNum 500"
  by (simp add: getitem_def default_params_def)

lemma getitem_default_quality_palette:
  "getitem (default_params n) ''quality_palette'' = PList (rev (color_palette ''RdYlGn'' 11))"
  by (simp add: getitem_def default_params_def)

lemma length_color_palette: "length (color_palette name n) = n"
  by (simp add: color_palette_def)

lemma list_getitem_in_range:
  "0 \<le> i \<Longrightarrow> i < int (length xs) \<Longrightarrow> list_getitem xs i = Inr (xs ! nat i)"
  by (simp add: list_getitem_def)

lemma for_range_succeeds:
  assumes "getitem (params st) ''quality_palette'' = PList pal \<or>
           getitem (params st) ''quality_palette'' = PTuple pal"
    and "11 \<le> length pal"
    and "length sd = c" and "co = map quality_category sd"
    and "\<And>l. l \<in> set ls \<Longrightarrow> l < c \<and> l < length (quality st) \<and> l < length (names st)"
  shows "\<exists>st'. for_range ls (label_step sd co) st = Inr st'"
  using assms
proof (induction ls arbitrary: st)
  case Nil then show ?case by simp
next
  case (Cons l ls)
  have l: "l < c" "l < length (quality st)" "l < length (names st)" using Cons.prems(5)[of l] by simp_all
  have "co ! l = quality_category (sd ! l)" using l Cons.prems(3,4) by simp
  then have "0 \<le> co ! l" "co ! l < int (length pal)"
    using quality_category_range[of "sd ! l"] Cons.prems(2) by simp_all
  then have g: "list_getitem pal (co ! l) = Inr (pal ! nat (co ! l))" by (rule list_getitem_in_range)
  have "\<exists>cl. py_getitem (getitem (params st) ''quality_palette'') (co ! l) = Inr cl"
    using Cons.prems(1) g by auto
  then obtain st1 where s1: "label_step sd co l st = Inr st1"
    using l Cons.prems(3) by (auto simp: label_step_def Let_def)
  note fr = label_step_frame[OF s1]
  have "\<exists>st'. for_range ls (label_step sd co) st1 = Inr st'"
    using Cons.prems fr by (intro Cons.IH) auto
  then show ?case using s1 by simp
qed

lemma update_plot_succeeds:
  assumes "m = unstructured (data st ! cur_data st)" and "m \<noteq> []" and "rectangular (Suc c) m"
    and "scale_of (getitem (params st) ''scale'') = Inr scale"
    and "getitem (params st) ''quality_palette'' = PList pal \<or>
         getitem (params st) ''quality_palette'' = PTuple pal"
    and "11 \<le> length pal"
    and "n_lines st \<le> c" and "n_lines st \<le> length (quality st)" and "n_lines st \<le> length (names st)"
  shows "\<exists>st'. update_plot st = Inr st'"
proof -
  let ?sd = "window_sd scale (center_scale scale m)"
  have len: "length ?sd = c" using assms(2,3) by (simp add: window_sd_length)
  have "\<exists>st1. for_range [0..<n_lines st] (label_step ?sd (map quality_category ?sd)) st = Inr st1"
    using assms(5,6) len refl
  proof (rule for_range_succeeds)
    fix l assume "l \<in> set [0..<n_lines st]"
    then show "l < c \<and> l < length (quality st) \<and> l < length (names st)"
      using assms(7,8,9) by simp
  qed
  then show ?thesis using assms(1,2,4) by (auto simp: update_plot_def Let_def)
qed

lemma update_plot_frame:
  assumes "update_plot st = Inr st'"
  shows "params st' = params st" "data st' = data st" "cycle_len st' = cycle_len st"
    "cycle_next st' = cycle_next st" "cur_data st' = cur_data st" "n_lines st' = n_lines st"
    "n_points st' = n_points st"
    "length (quality st') = length (quality st)" "length (names st') = length (names st)"
    "map text_val (names st') = map text_val (names st)"
  using update_plot_Inr[OF assms] by (auto dest: for_range_frame)

lemma update_plot_buffer:
  assumes "update_plot st = Inr st'" and "scale_of (getitem (params st) ''scale'') = Inr scale"
  shows "a_position (prog st') = concat (transpose (center_scale scale (unstructured (data st ! cur_data st))))"
  using update_plot_Inr[OF assms(1)] assms(2) by auto

lemma update_plot_labels:
  assumes up: "update_plot st = Inr st'" and sc: "scale_of (getitem (params st) ''scale'') = Inr scale"
    and l: "l < n_lines st"
  shows "l < length (window_sd scale (center_scale scale (unstructured (data st ! cur_data st))))
       \<and> l < length (quality st) \<and> l < length (names st)
       \<and> text_val (quality st' ! l) = Fixed2 (window_sd scale (center_scale scale (unstructured (data st ! cur_data st))) ! l)
       \<and> font_size (quality st' ! l) = 12 + quality_category (window_sd scale (center_scale scale (unstructured (data st ! cur_data st))) ! l)
       \<and> py_getitem (getitem (params st) ''quality_palette'')
            (quality_category (window_sd scale (center_scale scale (unstructured (data st ! cur_data st))) ! l))
           = Inr (color (quality st' ! l))
       \<and> font_size (names st' ! l) = font_size (quality st' ! l)
       \<and> color (names st' ! l) = color (quality st' ! l)"
proof -
  let ?sd = "window_sd scale (center_scale scale (unstructured (data st ! cur_data st)))"
  from update_plot_Inr[OF up] sc obtain st1 where
    fr: "for_range [0..<n_lines st] (label_step ?sd (map quality_category ?sd)) st = Inr st1"
    and st': "st' = st1\<lparr>prog := (prog st1)\<lparr>a_position :=
             concat (transpose (center_scale scale (unstructured (data st ! cur_data st))))\<rparr>\<rparr>"
    by auto
  have "l \<in> set [0..<n_lines st]" using l by simp
  note at = for_range_at[OF fr distinct_upt this]
  then have "l < length ?sd" by simp
  then have "map quality_category ?sd ! l = quality_category (?sd ! l)" by simp
  with at show ?thesis by (simp add: st')
qed

subsection \<open>The plotter on two channels\<close>

lemma demo_lines_fields:
  "data demo_lines = [demo_source]" "cur_data demo_lines = 0" "n_lines demo_lines = 2"
  "n_points demo_lines = 2" "params demo_lines = default_params 2"
  "length (names demo_lines) = 2" "length (quality demo_lines) = 2"
  "cycle_len demo_lines = 1" "cycle_next demo_lines = 0"
  "map text_val (names demo_lines) = [Literal ''Fp1'', Literal ''Fp2'']"
  "a_position (prog demo_lines) = [0, 0, 0, 0]"
  using Lines_init_Inr[OF demo_init]
  by (simp_all add: data_list_def demo_source_def TextVisual_def eval_nat_numeral)

lemma demo_rect: "rectangular (Suc 2) (unstructured (data demo_lines ! cur_data demo_lines))"
  by (simp add: demo_lines_fields demo_source_def rectangular_def)

lemma demo_scale: "getitem (params demo_lines) ''scale'' = PNum 500"
  by (simp add: demo_lines_fields getitem_default_scale)

lemma demo_update: "update_plot demo_lines = Inr demo_frame"
proof -
  have "\<exists>st'. update_plot demo_lines = Inr st'"
  proof (rule update_plot_succeeds[OF refl _ demo_rect])
    show "unstructured (data demo_lines ! cur_data demo_lines) \<noteq> []"
      by (simp add: demo_lines_fields demo_source_def)
    show "scale_of (getitem (params demo_lines) ''scale'') = Inr 500" by (simp add: demo_scale)
    show "getitem (params demo_lines) ''quality_palette'' = PList (rev (color_palette ''RdYlGn'' 11))
        \<or> getitem (params demo_lines) ''quality_palette'' = PTuple (rev (color_palette ''RdYlGn'' 11))"
      by (simp add: demo_lines_fields getitem_default_quality_palette)
    show "11 \<le> length (rev (color_palette ''RdYlGn'' 11))" by (simp add: length_color_palette)
  qed (simp_all add: demo_lines_fields)
  then show ?thesis by (auto simp: demo_frame_def)
qed

subsection \<open>The vertex buffer\<close>

lemma concat_nth_uniform:
  assumes "\<And>xs. xs \<in> set xss \<Longrightarrow> length xs = r" and "j < length xss" and "i < r"
  shows "concat xss ! (j * r + i) = xss ! j ! i"
  using assms
proof (induction xss arbitrary: j)
  case Nil then show ?case by simp
next
  case (Cons xs xss)
  have lx: "length xs = r" using Cons.prems(1) by simp
  show ?case
  proof (cases j)
    case 0 then show ?thesis using lx Cons.prems(3) by (simp add: nth_append)
  next
    case (Suc k)
    then have "k < length xss" using Cons.prems(2) by simp
    then have "concat xss ! (k * r + i) = xss ! k ! i"
      using Cons.prems(1,3) by (intro Cons.IH) simp_all
    then show ?thesis using Suc lx by (simp add: nth_append)
  qed
qed

lemma update_plot_scale:
  assumes "update_plot st = Inr st'" and "getitem (params st) ''scale'' = PNum scale"
  shows "scale_of (getitem (params st) ''scale'') = Inr scale"
  using update_plot_Inr[OF assms(1)] assms(2) by (auto split: if_splits)

lemma update_plot_nonempty: "update_plot st = Inr st' \<Longrightarrow> unstructured (data st ! cur_data st) \<noteq> []"
  using update_plot_Inr by blast

text \<open>
  C8: after a frame that completes, on a rectangular sample matrix with \<open>c\<close> channel
  columns behind the index column and a numeric scale, the vertex buffer is the
  concatenation, channel by channel, of the channel's column minus its mean, divided by
  the scale; the amplitude of channel \<open>j\<close> at row \<open>i\<close> sits at position
  \<open>j * rows + i\<close>.
\<close>

theorem frame_amplitudes:
  assumes "update_plot st = Inr st'" and "m = unstructured (data st ! cur_data st)"
    and "rectangular (Suc c) m" and "getitem (params st) ''scale'' = PNum scale"
  shows "a_position (prog st') = concat (map (channel_amplitudes scale m) [0..<c])
       \<and> (\<forall>j<c. \<forall>i<length m.
             a_position (prog st') ! (j * length m + i)
               = (m ! i ! Suc j - mean (channel_column j m)) / scale)"
proof -
  have ne: "m \<noteq> []" using update_plot_nonempty[OF assms(1)] assms(2) by simp
  have sc: "scale_of (getitem (params st) ''scale'') = Inr scale"
    using assms(1,4) by (rule update_plot_scale)
  have a: "a_position (prog st') = concat (map (channel_amplitudes scale m) [0..<c])"
    using update_plot_buffer[OF assms(1) sc] center_scale_transpose[OF assms(3) ne]
    by (simp add: assms(2))
  have "concat (map (channel_amplitudes scale m) [0..<c]) ! (j * length m + i)
          = (m ! i ! Suc j - mean (channel_column j m)) / scale"
    if "j < c" "i < length m" for i j
  proof -
    have "concat (map (channel_amplitudes scale m) [0..<c]) ! (j * length m + i)
            = map (channel_amplitudes scale m) [0..<c] ! j ! i"
      using that by (intro concat_nth_uniform) (auto simp: channel_amplitudes_def channel_column_def)
    also have "\<dots> = (m ! i ! Suc j - mean (channel_column j m)) / scale"
      using that by (simp add: channel_amplitudes_def channel_column_def)
    finally show ?thesis .
  qed
  with a show ?thesis by simp
qed

theorem frame_amplitudes_witness:
  "update_plot demo_lines = Inr demo_frame
   \<and> rectangular (Suc 2) (unstructured (data demo_lines ! cur_data demo_lines))
   \<and> getitem (params demo_lines) ''scale'' = PNum 500
   \<and> a_position (prog demo_frame) = [- (3/50), 3/50, 0, 0]"
proof -
  have "[0..<2] = [0, Suc 0]" by (simp add: upt_rec)
  then show ?thesis
    using frame_amplitudes[OF demo_update refl demo_rect demo_scale] demo_update demo_rect demo_scale
    by (simp add: demo_lines_fields demo_source_def channel_amplitudes_def channel_column_def mean_def)
qed

subsection \<open>The labels\<close>

lemma on_key_press_frame:
  assumes "on_key_press key st = Inr st'"
  shows "names st' = names st" "quality st' = quality st" "data st' = data st"
    "n_lines st' = n_lines st" "n_points st' = n_points st" "params st' = params st"
    "cycle_len st' = cycle_len st" "a_position (prog st') = a_position (prog st)"
  using assms by (auto simp: on_key_press_def Let_def bind_eq_Inr split: if_splits)

lemma handle_names_text:
  assumes "handle e st = Inr st'"
  shows "map text_val (names st') = map text_val (names st)"
proof (cases e)
  case (KeyPress k)
  with assms have "on_key_press k st = Inr st'" by simp
  then show ?thesis by (simp add: on_key_press_frame)
next
  case (MouseWheel d)
  with assms show ?thesis by (auto simp: on_mouse_wheel_def Let_def)
next
  case Timer
  with assms have "update_plot st = Inr st'" by simp
  then show ?thesis by (rule update_plot_frame)
next
  case (Acquire i m)
  with assms show ?thesis by (auto simp: acquire_def)
qed

lemma run_names_text:
  "run es st = Inr st' \<Longrightarrow> map text_val (names st') = map text_val (names st)"
proof (induction es arbitrary: st)
  case Nil then show ?case by simp
next
  case (Cons e es)
  then obtain st1 where a: "handle e st = Inr st1" and b: "run es st1 = Inr st'"
    by (auto simp: bind_eq_Inr)
  show ?case using Cons.IH[OF b] handle_names_text[OF a] by simp
qed

lemma Lines_init_names_text:
  assumes "Lines_init d p = Inr st"
  shows "map text_val (names st) = map Literal (ch_names (hd (data_list d)))"
  using Lines_init_Inr[OF assms] by (simp add: TextVisual_def o_def)

text \<open>
  C10: in a plotter reached from construction, after a frame on a matrix with \<open>n\<close>
  channel columns, \<open>n\<close> the number of lines, the quality label at position \<open>l\<close> shows the
  deviation of channel \<open>n - 1 - l\<close> and has the font size and colour of that channel's
  category; the name label at position \<open>l\<close> still shows the name of channel \<open>l\<close> and has
  the same font size and colour, those of channel \<open>n - 1 - l\<close>.
\<close>

theorem labels_mirrored:
  assumes "Lines_init d plot_params = Inr st0" and "run es st0 = Inr st"
    and "update_plot st = Inr st'"
    and "m = unstructured (data st ! cur_data st)" and "rectangular (Suc (n_lines st)) m"
    and "getitem (params st) ''scale'' = PNum scale" and "l < n_lines st"
  shows "text_val (quality st' ! l) = Fixed2 (channel_sd scale m (n_lines st - 1 - l))
       \<and> font_size (quality st' ! l) = 12 + quality_category (channel_sd scale m (n_lines st - 1 - l))
       \<and> py_getitem (getitem (params st) ''quality_palette'')
            (quality_category (channel_sd scale m (n_lines st - 1 - l)))
           = Inr (color (quality st' ! l))
       \<and> text_val (names st' ! l) = Literal (ch_names (hd (data_list d)) ! l)
       \<and> font_size (names st' ! l) = 12 + quality_category (channel_sd scale m (n_lines st - 1 - l))
       \<and> color (names st' ! l) = color (quality st' ! l)"
proof -
  have ne: "m \<noteq> []" using update_plot_nonempty[OF assms(3)] assms(4) by simp
  have sc: "scale_of (getitem (params st) ''scale'') = Inr scale"
    using assms(3,6) by (rule update_plot_scale)
  note lab = update_plot_labels[OF assms(3) sc assms(7), folded assms(4)]
  have sd: "window_sd scale (center_scale scale m) ! l = channel_sd scale m (n_lines st - 1 - l)"
    using assms(5) ne assms(7) by (rule window_sd_nth)
  have tx: "map text_val (names st') = map Literal (ch_names (hd (data_list d)))"
    using update_plot_frame(10)[OF assms(3)] run_names_text[OF assms(2)]
      Lines_init_names_text[OF assms(1)] by simp
  have ln: "l < length (names st')" using lab update_plot_frame(9)[OF assms(3)] by simp
  then have "l < length (ch_names (hd (data_list d)))"
    using tx by (metis length_map)
  then have "text_val (names st' ! l) = Literal (ch_names (hd (data_list d)) ! l)"
    using tx ln by (metis nth_map)
  then show ?thesis using lab sd by simp
qed

lemma np_std_pm: "np_std [- (3/50), 3/50] = 3/50"
proof -
  have "mean [- (3/50), 3/50] = 0" by (simp add: mean_def)
  then have "np_std [- (3/50), 3/50] = sqrt ((3/50)\<^sup>2)"
    by (simp add: np_std_def mean_def)
  then show ?thesis by simp
qed

lemma demo_channel_sd: "channel_sd 500 (unstructured demo_source) 0 = 30"
proof -
  have "channel_amplitudes 500 (unstructured demo_source) 0 = [- (3/50), 3/50]"
    by (simp add: channel_amplitudes_def channel_column_def demo_source_def mean_def)
  then show ?thesis by (simp add: channel_sd_def lastn_def np_std_pm)
qed

theorem labels_mirrored_witness:
  "Lines_init (Single demo_source) PNone = Inr demo_lines \<and> run [] demo_lines = Inr demo_lines
   \<and> update_plot demo_lines = Inr demo_frame
   \<and> rectangular (Suc (n_lines demo_lines)) (unstructured (data demo_lines ! cur_data demo_lines))
   \<and> getitem (params demo_lines) ''scale'' = PNum 500 \<and> 1 < n_lines demo_lines
   \<and> text_val (quality demo_frame ! 1) = Fixed2 30
   \<and> font_size (quality demo_frame ! 1) = 17
   \<and> text_val (names demo_frame ! 1) = Literal ''Fp2''
   \<and> font_size (names demo_frame ! 1) = 17
   \<and> color (names demo_frame ! 1) = color (quality demo_frame ! 1)"
proof -
  have r: "rectangular (Suc (n_lines demo_lines)) (unstructured (data demo_lines ! cur_data demo_lines))"
    using demo_rect by (simp add: demo_lines_fields)
  have l: "1 < n_lines demo_lines" by (simp add: demo_lines_fields)
  have run0: "run [] demo_lines = Inr demo_lines" by simp
  have m: "unstructured (data demo_lines ! cur_data demo_lines) = unstructured demo_source"
    by (simp add: demo_lines_fields)
  have n: "n_lines demo_lines - 1 - 1 = 0" by (simp add: demo_lines_fields)
  have c: "ch_names (hd (data_list (Single demo_source))) ! 1 = ''Fp2''"
    by (simp add: data_list_def demo_source_def)
  have "text_val (quality demo_frame ! 1) = Fixed2 30
      \<and> font_size (quality demo_frame ! 1) = 17
      \<and> text_val (names demo_frame ! 1) = Literal ''Fp2''
      \<and> font_size (names demo_frame ! 1) = 17
      \<and> color (names demo_frame ! 1) = color (quality demo_frame ! 1)"
    using labels_mirrored[OF demo_init run0 demo_update refl r demo_scale l]
    unfolding m n c demo_channel_sd quality_category_30 by simp
  then show ?thesis using demo_init demo_update r demo_scale l run0 by simp
qed

text \<open>
  C2, as stated: the category is the value \<open>tanh ((sd - 30) / 15) * 5 + 5\<close> rounded to the
  nearest integer and clamped to 0..10. At \<open>sd = 32\<close> the value lies between 5.5 and 6:
  the code, which converts with \<^verbatim>\<open>np.int32\<close>, yields 5, the rounded value is 6.
\<close>

theorem category_counterexample:
  "quality_category 32 = 5 \<and> quality_category_spec 32 = 6"
  using quality_category_32 quality_category_spec_32 by simp

text \<open>
  C2, amended: after a frame that completes, for every line \<open>l\<close> the quality label shows
  a deviation \<open>sd\<close>, and the category that gives both labels their font size and colour is
  the double-precision value of \<open>tanh ((sd - 30) / 15) * 5 + 5\<close> truncated toward zero. The
  value lies between 0 and 10, so the truncation is its floor and nothing is clamped; it
  is not rounded to the nearest integer (the category is 5 at \<open>sd = 32\<close>), and it is 10
  where the value has reached 10.0 (at \<open>sd = 320\<close>).
\<close>

theorem category_truncates:
  assumes "update_plot st = Inr st'" and "l < n_lines st"
  shows "(\<exists>sd. text_val (quality st' ! l) = Fixed2 sd
          \<and> font_size (quality st' ! l) = 12 + \<lfloor>category_value sd\<rfloor>
          \<and> py_getitem (getitem (params st) ''quality_palette'') \<lfloor>category_value sd\<rfloor>
              = Inr (color (quality st' ! l))
          \<and> font_size (names st' ! l) = 12 + \<lfloor>category_value sd\<rfloor>
          \<and> color (names st' ! l) = color (quality st' ! l)
          \<and> 0 \<le> category_value sd \<and> category_value sd \<le> 10)
       \<and> \<lfloor>category_value 32\<rfloor> = 5 \<and> \<lfloor>category_value 320\<rfloor> = 10"
proof -
  from update_plot_Inr[OF assms(1)] obtain scale where
    sc: "scale_of (getitem (params st) ''scale'') = Inr scale" by blast
  let ?sd = "window_sd scale (center_scale scale (unstructured (data st ! cur_data st))) ! l"
  note lab = update_plot_labels[OF assms(1) sc assms(2)]
  have "text_val (quality st' ! l) = Fixed2 ?sd
          \<and> font_size (quality st' ! l) = 12 + \<lfloor>category_value ?sd\<rfloor>
          \<and> py_getitem (getitem (params st) ''quality_palette'') \<lfloor>category_value ?sd\<rfloor>
              = Inr (color (quality st' ! l))
          \<and> font_size (names st' ! l) = 12 + \<lfloor>category_value ?sd\<rfloor>
          \<and> color (names st' ! l) = color (quality st' ! l)
          \<and> 0 \<le> category_value ?sd \<and> category_value ?sd \<le> 10"
    using lab category_value_range[of ?sd] by (simp add: quality_category_floor)
  then have "\<exists>sd. text_val (quality st' ! l) = Fixed2 sd
          \<and> font_size (quality st' ! l) = 12 + \<lfloor>category_value sd\<rfloor>
          \<and> py_getitem (getitem (params st) ''quality_palette'') \<lfloor>category_value sd\<rfloor>
              = Inr (color (quality st' ! l))
          \<and> font_size (names st' ! l) = 12 + \<lfloor>category_value sd\<rfloor>
          \<and> color (names st' ! l) = color (quality st' ! l)
          \<and> 0 \<le> category_value sd \<and> category_value sd \<le> 10" by (rule exI)
  moreover have "\<lfloor>category_value 32\<rfloor> = 5" "\<lfloor>category_value 320\<rfloor> = 10"
    using quality_category_32 quality_category_320 by (simp_all add: quality_category_floor)
  ultimately show ?thesis by simp
qed

theorem category_truncates_witness:
  "update_plot demo_lines = Inr demo_frame \<and> 1 < n_lines demo_lines
   \<and> (\<exists>sd. text_val (quality demo_frame ! 1) = Fixed2 sd
       \<and> font_size (quality demo_frame ! 1) = 12 + \<lfloor>category_value sd\<rfloor>
       \<and> py_getitem (getitem (params demo_lines) ''quality_palette'') \<lfloor>category_value sd\<rfloor>
           = Inr (color (quality demo_frame ! 1))
       \<and> font_size (names demo_frame ! 1) = 12 + \<lfloor>category_value sd\<rfloor>
       \<and> color (names demo_frame ! 1) = color (quality demo_frame ! 1)
       \<and> 0 \<le> category_value sd \<and> category_value sd \<le> 10)"
proof -
  have l: "1 < n_lines demo_lines" by (simp add: demo_lines_fields)
  from category_truncates[OF demo_update l] demo_update l show ?thesis by simp
qed

lemma int32_range:
  assumes "- 1 \<le> t" and "t \<le> 1"
  shows "0 \<le> int32 (t * 5 + 5) \<and> int32 (t * 5 + 5) \<le> 10"
proof -
  have a: "0 \<le> t * 5 + 5" "t * 5 + 5 \<le> 10" using assms by simp_all
  then have "int32 (t * 5 + 5) = \<lfloor>t * 5 + 5\<rfloor>" by (simp add: int32_def)
  moreover have "0 \<le> \<lfloor>t * 5 + 5\<rfloor>" using a(1) by (simp only: zero_le_floor)
  moreover have "\<lfloor>t * 5 + 5\<rfloor> \<le> 10" using a(2) by (simp add: floor_le_iff)
  ultimately show ?thesis by simp
qed

text \<open>
  C7: the category is an integer from 0 to 10, so it is a valid index into a palette of
  11 entries. The same holds for whatever value between -1 and 1 stands in for the
  hyperbolic tangent, the bounds included, as for a floating-point result that has
  saturated.
\<close>

theorem category_in_palette:
  assumes "length pal = 11"
  shows "0 \<le> quality_category sd \<and> quality_category sd \<le> 10
       \<and> py_getitem (PList pal) (quality_category sd) = Inr (pal ! nat (quality_category sd))
       \<and> (\<forall>t. - 1 \<le> t \<and> t \<le> 1 \<longrightarrow> 0 \<le> int32 (t * 5 + 5) \<and> int32 (t * 5 + 5) \<le> 10
              \<and> py_getitem (PList pal) (int32 (t * 5 + 5)) = Inr (pal ! nat (int32 (t * 5 + 5))))"
proof -
  have r: "0 \<le> quality_category sd \<and> quality_category sd \<le> 10"
    by (rule quality_category_range)
  have g: "py_getitem (PList pal) i = Inr (pal ! nat i)" if "0 \<le> i" "i \<le> 10" for i
    using that assms by (simp add: list_getitem_def)
  show ?thesis using r g int32_range by simp
qed

theorem category_in_palette_witness:
  "length (rev (color_palette ''RdYlGn'' 11)) = 11
   \<and> 0 \<le> quality_category 32 \<and> quality_category 32 \<le> 10
   \<and> py_getitem (PList (rev (color_palette ''RdYlGn'' 11))) (quality_category 32)
       = Inr (PRgb ''RdYlGn'' 11 5)"
proof -
  have len: "length (rev (color_palette ''RdYlGn'' 11)) = 11" by (simp add: length_color_palette)
  have "rev (color_palette ''RdYlGn'' 11) ! 5 = PRgb ''RdYlGn'' 11 5"
    by (simp add: rev_nth length_color_palette color_palette_def)
  then show ?thesis
    using category_in_palette[OF len, of 32] len by (simp add: quality_category_32)
qed

subsection \<open>Configuration errors\<close>














text \<open>
  What numpy raises on a palette passes through: a dict as the palette is a TypeError of
  \<^verbatim>\<open>float()\<close>, with its own message.
\<close>

lemma palette_error_passes:
  "Lines_init (Single demo_source) (PDict [(PStr ''palette'', PDict [(PStr ''a'', PNum 1)])])
     = Inl (TypeError ''float() argument must be a string or a real number, not dict'')"
  by (simp add: Lines_init_def Let_def data_list_def demo_source_def default_params_def getitem_def
                repeat_palette_def)

subsection \<open>A single source\<close>

lemma key_D_single: "single_source st \<Longrightarrow> on_key_press ''D'' st = Inr st"
  by (cases st) (simp add: on_key_press_def single_source_def)

lemma on_key_press_single:
  assumes "on_key_press key st = Inr st'" and "single_source st"
  shows "single_source st'"
proof (cases "key = ''D''")
  case True
  then show ?thesis using assms key_D_single[OF assms(2)] by simp
next
  case False
  then show ?thesis using assms
    by (auto simp: on_key_press_def Let_def single_source_def split: if_splits)
qed

lemma handle_single:
  assumes "handle e st = Inr st'" and "single_source st"
  shows "single_source st'"
proof (cases e)
  case (KeyPress k)
  with assms show ?thesis using on_key_press_single by simp
next
  case (MouseWheel d)
  with assms show ?thesis by (auto simp: on_mouse_wheel_def Let_def single_source_def)
next
  case Timer
  with assms have "update_plot st = Inr st'" by simp
  from update_plot_frame[OF this] assms(2) show ?thesis by (simp add: single_source_def)
next
  case (Acquire i m)
  with assms show ?thesis by (auto simp: acquire_def single_source_def)
qed

lemma run_single: "run es st = Inr st' \<Longrightarrow> single_source st \<Longrightarrow> single_source st'"
proof (induction es arbitrary: st)
  case Nil then show ?case by simp
next
  case (Cons e es)
  then obtain st1 where a: "handle e st = Inr st1" and b: "run es st1 = Inr st'"
    by (auto simp: bind_eq_Inr)
  show ?case using Cons.IH[OF b handle_single[OF a Cons.prems(2)]] .
qed

text \<open>
  C9: in a plotter built on exactly one source, whatever events came before, a press of
  \<open>D\<close> returns the very same state: the active source, the buffers and the labels are
  unchanged.
\<close>

theorem key_D_single_source:
  assumes "Lines_init d plot_params = Inr st0" and "length (data_list d) = 1"
    and "run es st0 = Inr st"
  shows "on_key_press ''D'' st = Inr st"
proof -
  have "single_source st0"
    using Lines_init_Inr[OF assms(1)] assms(2) by (simp add: single_source_def)
  then have "single_source st" using assms(3) run_single by blast
  then show ?thesis by (rule key_D_single)
qed

theorem key_D_single_source_witness:
  "Lines_init (Single demo_source) PNone = Inr demo_lines
   \<and> length (data_list (Single demo_source)) = 1
   \<and> run [Timer] demo_lines = Inr demo_frame
   \<and> on_key_press ''D'' demo_frame = Inr demo_frame"
proof -
  have l: "length (data_list (Single demo_source)) = 1" by (simp add: data_list_def)
  have r: "run [Timer] demo_lines = Inr demo_frame" by (simp add: demo_update)
  from key_D_single_source[OF demo_init l r] demo_init l r show ?thesis by simp
qed

subsection \<open>The length of the vertex buffer\<close>

lemma update_plot_buffer_length:
  assumes "update_plot st = Inr st'" and "rectangular (Suc c) (unstructured (data st ! cur_data st))"
  shows "buffer_length st' = c * length (unstructured (data st ! cur_data st))"
proof -
  from update_plot_Inr[OF assms(1)] obtain scale where
    sc: "scale_of (getitem (params st) ''scale'') = Inr scale" by blast
  have ne: "unstructured (data st ! cur_data st) \<noteq> []" using assms(1) by (rule update_plot_nonempty)
  show ?thesis unfolding buffer_length_def update_plot_buffer[OF assms(1) sc]
    using assms(2) ne by (rule concat_transpose_length)
qed

lemma update_plot_shape:
  assumes "update_plot st = Inr st'" and "shape_inv nl np st"
  shows "shape_inv nl np st'"
proof -
  let ?m = "unstructured (data st ! cur_data st)"
  have "data st ! cur_data st \<in> set (data st)" using assms(2) by (simp add: shape_inv_def)
  then have w: "well_shaped nl np ?m" using assms(2) by (simp add: shape_inv_def list_all_iff)
  then have "buffer_length st' = nl * np"
    using update_plot_buffer_length[OF assms(1), of nl] by (simp add: well_shaped_def)
  then show ?thesis using assms(2) update_plot_frame[OF assms(1)] by (simp add: shape_inv_def)
qed

lemma on_key_press_shape:
  assumes "on_key_press key st = Inr st'" and "shape_inv nl np st"
  shows "shape_inv nl np st'"
  using assms
  by (auto simp: on_key_press_def Let_def bind_eq_Inr shape_inv_def buffer_length_def split: if_splits)

lemma acquire_shape:
  assumes "well_shaped nl np m" and "shape_inv nl np st"
  shows "shape_inv nl np (acquire i m st)"
proof -
  have "list_all (\<lambda>s. well_shaped nl np (unstructured s)) ((data st)[i := (data st ! i)\<lparr>unstructured := m\<rparr>])"
    using assms unfolding shape_inv_def list_all_iff
    by (auto dest!: set_update_subset_insert[THEN subsetD])
  then show ?thesis using assms(2) by (simp add: shape_inv_def acquire_def buffer_length_def)
qed

lemma handle_shape:
  assumes "handle e st = Inr st'" and "shaped_event nl np e" and "shape_inv nl np st"
  shows "shape_inv nl np st'"
proof (cases e)
  case (KeyPress k)
  with assms show ?thesis using on_key_press_shape by simp
next
  case (MouseWheel d)
  with assms show ?thesis by (auto simp: on_mouse_wheel_def Let_def shape_inv_def buffer_length_def)
next
  case Timer
  with assms show ?thesis using update_plot_shape by simp
next
  case (Acquire i m)
  with assms show ?thesis using acquire_shape by auto
qed

lemma run_shape:
  "run es st = Inr st' \<Longrightarrow> list_all (shaped_event nl np) es \<Longrightarrow> shape_inv nl np st
     \<Longrightarrow> shape_inv nl np st'"
proof (induction es arbitrary: st)
  case Nil then show ?case by simp
next
  case (Cons e es)
  then obtain st1 where a: "handle e st = Inr st1" and b: "run es st1 = Inr st'"
    by (auto simp: bind_eq_Inr)
  have "shape_inv nl np st1" using a Cons.prems(2,3) by (auto intro: handle_shape)
  then show ?case using Cons.IH[OF b] Cons.prems(2) by simp
qed

text \<open>
  C4, amended: if the sample matrix of every source has \<open>n_points\<close> rows of \<open>n_lines + 1\<close>
  values, at construction and whenever new samples arrive, then after any run of events
  that completes the vertex buffer has \<open>n_lines * n_points\<close> entries, as it had at
  construction.
\<close>

theorem buffer_length_invariant:
  assumes "Lines_init d plot_params = Inr st0"
    and "list_all (\<lambda>s. well_shaped (n_lines st0) (n_points st0) (unstructured s)) (data_list d)"
    and "list_all (shaped_event (n_lines st0) (n_points st0)) es"
    and "run es st0 = Inr st"
  shows "buffer_length st0 = n_lines st0 * n_points st0
       \<and> buffer_length st = n_lines st0 * n_points st0
       \<and> n_lines st = n_lines st0 \<and> n_points st = n_points st0"
proof -
  note i = Lines_init_Inr[OF assms(1)]
  have b0: "buffer_length st0 = n_lines st0 * n_points st0" using i by (simp add: buffer_length_def)
  have "shape_inv (n_lines st0) (n_points st0) st0"
    using i assms(2) b0 by (simp add: shape_inv_def)
  from run_shape[OF assms(4,3) this] b0 show ?thesis by (simp add: shape_inv_def)
qed

theorem buffer_length_invariant_witness:
  "Lines_init (Single demo_source) PNone = Inr demo_lines
   \<and> list_all (\<lambda>s. well_shaped (n_lines demo_lines) (n_points demo_lines) (unstructured s))
        (data_list (Single demo_source))
   \<and> list_all (shaped_event (n_lines demo_lines) (n_points demo_lines)) [Timer]
   \<and> run [Timer] demo_lines = Inr demo_frame
   \<and> buffer_length demo_frame = 4 \<and> n_lines demo_lines * n_points demo_lines = 4"
proof -
  have w: "list_all (\<lambda>s. well_shaped (n_lines demo_lines) (n_points demo_lines) (unstructured s))
        (data_list (Single demo_source))"
    by (simp add: data_list_def demo_lines_fields well_shaped_def rectangular_def demo_source_def)
  have e: "list_all (shaped_event (n_lines demo_lines) (n_points demo_lines)) [Timer]" by simp
  have r: "run [Timer] demo_lines = Inr demo_frame" by (simp add: demo_update)
  from buffer_length_invariant[OF demo_init w e r] demo_init w e r show ?thesis
    by (simp add: demo_lines_fields)
qed

text \<open>
  C4, as stated: the length of the vertex buffer is the same after every frame, whatever
  the number of rows of the sample matrix. The buffer is replaced by the flattened matrix:
  built on two channels of two samples it has 4 entries, and after a frame on a matrix of
  three rows it has 6.
\<close>

theorem buffer_length_counterexample:
  "map_sum id buffer_length (session (Single demo_source) PNone []) = Inr 4
   \<and> map_sum id buffer_length (session (Single demo_source) PNone [Acquire 0 grown_matrix, Timer])
       = Inr 6
   \<and> n_chan demo_source * n_samples demo_source = 4"
proof -
  let ?st = "acquire 0 grown_matrix demo_lines"
  have f: "data ?st ! cur_data ?st = demo_source\<lparr>unstructured := grown_matrix\<rparr>"
    "params ?st = default_params 2" "n_lines ?st = 2"
    "length (quality ?st) = 2" "length (names ?st) = 2"
    by (simp_all add: acquire_def demo_lines_fields)
  have m: "unstructured (data ?st ! cur_data ?st) = grown_matrix" by (simp add: f)
  have rect: "rectangular (Suc 2) (unstructured (data ?st ! cur_data ?st))"
    unfolding m by (simp add: grown_matrix_def rectangular_def)
  have "\<exists>st'. update_plot ?st = Inr st'"
  proof (rule update_plot_succeeds[OF refl _ rect])
    show "unstructured (data ?st ! cur_data ?st) \<noteq> []" unfolding m by (simp add: grown_matrix_def)
    show "scale_of (getitem (params ?st) ''scale'') = Inr 500"
      by (simp add: f getitem_default_scale)
    show "getitem (params ?st) ''quality_palette'' = PList (rev (color_palette ''RdYlGn'' 11))
        \<or> getitem (params ?st) ''quality_palette'' = PTuple (rev (color_palette ''RdYlGn'' 11))"
      by (simp add: f getitem_default_quality_palette)
    show "11 \<le> length (rev (color_palette ''RdYlGn'' 11))" by (simp add: length_color_palette)
  qed (simp_all add: f)
  then obtain st' where u: "update_plot ?st = Inr st'" by blast
  have "buffer_length st' = 2 * length grown_matrix"
    using update_plot_buffer_length[OF u rect] by (simp only: m)
  then have b: "buffer_length st' = 6" by (simp add: grown_matrix_def)
  have a: "map_sum id buffer_length (session (Single demo_source) PNone [Acquire 0 grown_matrix, Timer]) = Inr 6"
    by (simp add: session_def demo_init u b)
  have c: "map_sum id buffer_length (session (Single demo_source) PNone []) = Inr 4"
    by (simp add: session_def demo_init buffer_length_def demo_lines_fields)
  show ?thesis using a c by (simp add: demo_source_def)
qed

end
